theory Spec2Isabelle
  imports Complex_Main "HOL-Library.Sublist"
begin

text \<open>
  The updater for the ElvUI addon of World of Warcraft, embedded in HOL: the program of
  main.go as a function from the answers of its surroundings to the events of a run, and the
  download and extraction of its two older revisions. Library calls that only compute
  (JSON decoding, float parsing, reading a zip directory) are parameters of the model, as is
  everything the operating system and the network answer; paths, prefixes, slices and the
  line reader are modelled concretely.
\<close>

section \<open>Values\<close>

text \<open>
  A \<^verbatim>\<open>float64\<close> is modelled by its value: a real number, one of the two
  infinities, or NaN. The two signed zeros are the same value here; they compare equal in Go.
\<close>

datatype float64 = NaN | NegInf | Finite real | PosInf

text \<open>Go's \<^verbatim>\<open>a > b\<close> on float64: false as soon as one side is NaN.\<close>

fun float_gt :: "float64 \<Rightarrow> float64 \<Rightarrow> bool" where
  "float_gt NaN b = False"
| "float_gt a NaN = False"
| "float_gt PosInf b = (b \<noteq> PosInf)"
| "float_gt NegInf b = False"
| "float_gt (Finite x) NegInf = True"
| "float_gt (Finite x) (Finite y) = (y < x)"
| "float_gt (Finite x) PosInf = False"

text \<open>Go's \<^verbatim>\<open>a <= b\<close> on float64.\<close>

fun float_le :: "float64 \<Rightarrow> float64 \<Rightarrow> bool" where
  "float_le NaN b = False"
| "float_le a NaN = False"
| "float_le NegInf b = True"
| "float_le PosInf b = (b = PosInf)"
| "float_le (Finite x) NegInf = False"
| "float_le (Finite x) (Finite y) = (x \<le> y)"
| "float_le (Finite x) PosInf = True"

text \<open>
  Error values. \<open>EOF\<close> is \<^verbatim>\<open>io.EOF\<close>; \<open>LibErr\<close> is an error made by a
  library or by the operating system; \<open>Wrap\<close>, \<open>Errorf\<close> and \<open>WithStack\<close> are the
  constructors of \<^verbatim>\<open>github.com/pkg/errors\<close> that the program calls, the
  message already formatted. \<open>Panic\<close> is a run-time panic.
\<close>

datatype error =
    EOF
  | LibErr string
  | Wrap error string
  | Errorf string
  | WithStack error
  | Panic string

text \<open>
  A byte source (an open file, a response body): the bytes it still delivers and the error
  that ends it, \<open>EOF\<close> when it ends well.
\<close>

type_synonym reader = "string \<times> error"

record APIResponse =
  URL :: string
  Version :: string

record response =
  Body :: reader
  ContentLength :: int

text \<open>
  An entry of a zip archive as \<^verbatim>\<open>archive/zip\<close> presents it: its name, whether
  its file info says directory, its mode, and what \<^verbatim>\<open>f.Open()\<close> gives (the
  entry's bytes, or an error).
\<close>

record zipFile =
  Name :: string
  IsDir :: bool
  Mode :: nat
  Open :: "error + string"

record configuration =
  Page :: string
  Directories :: "string list"
  addon :: string

record elvui = configuration +
  client :: nat
  localVersion :: float64
  localName :: string
  remoteVersion :: float64
  downloadURL :: string

section \<open>The surroundings of the program\<close>

text \<open>
  Every call that leaves the program is answered by the \<open>world\<close>: the file system, the
  registry, the network, and the library functions whose results the program only inspects
  (JSON decoding, float parsing, zip directory reading, Unicode white space). Each answer is a
  function of the call's arguments.

  \<^item> \<open>json_Unmarshal raw (page, dirs)\<close>: decoding the configuration bytes into the
    struct can only touch the exported fields \<^verbatim>\<open>Page\<close> and
    \<^verbatim>\<open>Directories\<close>; it returns their new values and the error, if any.
  \<^item> \<open>strconv_ParseFloat s\<close> returns a value together with the error, as Go does.
  \<^item> \<open>client_Do timeout url\<close> is the GET request sent through the program's
    \<^verbatim>\<open>http.Client\<close>, of which the model keeps the timeout in seconds; the
    answer is the response body.
  \<^item> \<open>fmt_float2 x\<close> is what the verb \<^verbatim>\<open>%.2f\<close> prints for \<open>x\<close>
    (used by the two older revisions only, as is \<open>strings_ToLower\<close>).
  \<^item> \<open>registry_OpenKey\<close> is asked under \<^verbatim>\<open>HKEY_LOCAL_MACHINE\<close> for
    \<^verbatim>\<open>QUERY_VALUE\<close> access; \<open>registry_GetStringValue key name\<close> reads a
    string value of the opened key.
\<close>

record world =
  ioutil_ReadFile :: "string \<Rightarrow> error + string"
  json_Unmarshal :: "string \<Rightarrow> string \<times> string list \<Rightarrow> error option \<times> (string \<times> string list)"
  registry_OpenKey :: "string \<Rightarrow> error option"
  registry_GetStringValue :: "string \<Rightarrow> string \<Rightarrow> error + string"
  os_Open :: "string \<Rightarrow> error + reader"
  strings_TrimSpace :: "string \<Rightarrow> string"
  strconv_ParseFloat :: "string \<Rightarrow> float64 \<times> error option"
  http_NewRequest :: "string \<Rightarrow> error option"
  client_Do :: "nat \<Rightarrow> string \<Rightarrow> error + reader"
  json_Decode :: "reader \<Rightarrow> error + APIResponse"
  http_Get :: "string \<Rightarrow> error + response"
  zip_NewReader :: "string \<Rightarrow> int \<Rightarrow> error + zipFile list"
  os_RemoveAll :: "string \<Rightarrow> error option"
  os_MkdirAll :: "string \<Rightarrow> nat \<Rightarrow> error option"
  os_Create :: "string \<Rightarrow> error option"
  io_Copy :: "string \<Rightarrow> string \<Rightarrow> error option"
  strings_ToLower :: "string \<Rightarrow> string"
  fmt_float2 :: "float64 \<Rightarrow> string"

text \<open>
  What a run does to its surroundings, in order: the calls with an outside effect and the
  lines it logs. \<open>EvCopy dst bytes\<close> is \<^verbatim>\<open>io.Copy\<close> into the file created
  at \<open>dst\<close>; \<open>EvClose\<close> names what is closed.
\<close>

datatype event =
    EvReadFile string
  | EvOpenKey string
  | EvGetStringValue string string
  | EvOpen string
  | EvDo string
  | EvGet string
  | EvRemoveAll string
  | EvMkdirAll string nat
  | EvCreate string
  | EvCopy string string
  | EvClose string
  | LogFatal error
  | LogUpgrading float64 float64
  | LogSuccess
  | LogNothingToDo
  | LogPressEnter
  | EvReadStdin

section \<open>Paths\<close>

text \<open>
  \<^verbatim>\<open>filepath.Join\<close> on Windows, lexically: both the backslash and the slash
  separate components; empty elements are ignored; the joined string is
  cleaned: empty and \<^verbatim>\<open>.\<close> components vanish, \<^verbatim>\<open>..\<close> removes the
  component before it, is dropped at a root and is kept at the front of a relative path. A
  root is a leading separator or a drive (a letter and a colon) as first component. UNC
  prefixes and drive-relative paths (\<^verbatim>\<open>C:foo\<close>) are outside this model.
\<close>

definition sep :: char where
  "sep = CHR 0x5C"

definition isPathSeparator :: "char \<Rightarrow> bool" where
  "isPathSeparator c = (c = sep \<or> c = CHR ''/'')"

fun splitPath :: "string \<Rightarrow> string list" where
  "splitPath [] = [[]]"
| "splitPath (c # cs) =
     (if isPathSeparator c then [] # splitPath cs
      else (case splitPath cs of [] \<Rightarrow> [[c]] | x # xs \<Rightarrow> (c # x) # xs))"

definition isLetter :: "char \<Rightarrow> bool" where
  "isLetter c = (let n = (of_char c :: nat) in (65 \<le> n \<and> n \<le> 90) \<or> (97 \<le> n \<and> n \<le> 122))"

definition isVolume :: "string \<Rightarrow> bool" where
  "isVolume c = (case c of [d, k] \<Rightarrow> isLetter d \<and> k = CHR '':'' | _ \<Rightarrow> False)"

definition isRoot :: "string \<Rightarrow> bool" where
  "isRoot c = (c = [] \<or> isVolume c)"

text \<open>The cleaning loop; \<open>acc\<close> holds the components kept so far, last first.\<close>

fun cleanAcc :: "bool \<Rightarrow> string list \<Rightarrow> string list \<Rightarrow> string list" where
  "cleanAcc rooted acc [] = rev acc"
| "cleanAcc rooted acc (c # cs) =
     (if c = [] \<or> c = ''.'' then cleanAcc rooted acc cs
      else if c = ''..'' then
        (case acc of
           [] \<Rightarrow> if rooted then cleanAcc rooted [] cs else cleanAcc rooted [c] cs
         | a # as \<Rightarrow> if a = ''..'' then cleanAcc rooted (c # acc) cs
                     else cleanAcc rooted as cs)
      else cleanAcc rooted (c # acc) cs)"

definition cleanComponents :: "string list \<Rightarrow> string list" where
  "cleanComponents cs =
     (case cs of
        [] \<Rightarrow> []
      | r # rest \<Rightarrow> if isRoot r then r # cleanAcc True [] rest else cleanAcc False [] cs)"

text \<open>The components a path string denotes once cleaned.\<close>

definition components :: "string \<Rightarrow> string list" where
  "components s = (if s = [] then [] else cleanComponents (splitPath s))"

fun joinWith :: "char \<Rightarrow> string list \<Rightarrow> string" where
  "joinWith d [] = []"
| "joinWith d [x] = x"
| "joinWith d (x # y # ys) = x @ d # joinWith d (y # ys)"

definition render :: "string list \<Rightarrow> string" where
  "render cs =
     (case cs of
        [] \<Rightarrow> ''.''
      | [r] \<Rightarrow> if isRoot r then r @ [sep] else r
      | _ \<Rightarrow> joinWith sep cs)"

definition Clean :: "string \<Rightarrow> string" where
  "Clean s = render (components s)"

definition filepath_Join :: "string list \<Rightarrow> string" where
  "filepath_Join elem =
     (let es = filter (\<lambda>e. e \<noteq> []) elem
      in if es = [] then [] else Clean (joinWith sep es))"

text \<open>\<open>lies_under base p\<close>: the path \<open>p\<close> is \<open>base\<close> or lies below it.\<close>

definition lies_under :: "string \<Rightarrow> string \<Rightarrow> bool" where
  "lies_under base p = prefix (components base) (components p)"

section \<open>Strings and readers\<close>

definition HasPrefix :: "string \<Rightarrow> string \<Rightarrow> bool" where
  "HasPrefix s p = (take (length p) s = p)"

text \<open>
  The slice expression \<^verbatim>\<open>s[lo:hi]\<close>; Go panics unless
  \<open>0 \<le> lo \<le> hi \<le> len(s)\<close>, which is \<open>None\<close> here.
\<close>

definition slice :: "string \<Rightarrow> int \<Rightarrow> int \<Rightarrow> string option" where
  "slice s lo hi =
     (if 0 \<le> lo \<and> lo \<le> hi \<and> hi \<le> int (length s)
      then Some (take (nat (hi - lo)) (drop (nat lo) s)) else None)"

text \<open>
  \<^verbatim>\<open>bufio.Reader.ReadString(delim)\<close>: the bytes up to and including the first
  \<open>delim\<close> and no error; when the source ends before a \<open>delim\<close>, the bytes that were
  left together with the error that ended the source. The third component is the reader
  afterwards.
\<close>

definition ReadString :: "char \<Rightarrow> reader \<Rightarrow> string \<times> error option \<times> reader" where
  "ReadString delim rd =
     (case rd of (buf, fin) \<Rightarrow>
        if delim \<in> set buf
        then (takeWhile (\<lambda>c. c \<noteq> delim) buf @ [delim], None,
              (tl (dropWhile (\<lambda>c. c \<noteq> delim) buf), fin))
        else (buf, Some fin, ([], fin)))"

text \<open>\<^verbatim>\<open>ioutil.ReadAll\<close>: all the bytes, and the ending error unless it is EOF.\<close>

definition ReadAll :: "reader \<Rightarrow> string \<times> error option" where
  "ReadAll rd = (case rd of (buf, fin) \<Rightarrow> (buf, if fin = EOF then None else Some fin))"

section \<open>The program (main.go)\<close>

definition newline :: char where
  "newline = CHR 0x0A"

definition version_prefix :: string where
  "version_prefix = ''## Version: ''"

definition tocFile :: "elvui \<Rightarrow> string" where
  "tocFile e = filepath_Join [addon e, localName e, localName e @ ''_Mainline.toc'']"

text \<open>
  The \<^verbatim>\<open>for\<close> loop of \<^verbatim>\<open>getLocalVersion\<close> with the
  \<^verbatim>\<open>return\<close> that follows it. The assignment to
  \<^verbatim>\<open>e.localVersion\<close> happens before the error of \<^verbatim>\<open>ParseFloat\<close> is
  looked at, so the field changes also when the parsing fails. The slice expression is
  modelled with its bounds check; the check never fails here (lemma
  \<open>getLocalVersion_loop_no_panic\<close>), since a line that has the prefix and ends in a
  newline is longer than the prefix.
\<close>

function getLocalVersion_loop :: "world \<Rightarrow> elvui \<Rightarrow> reader \<Rightarrow> elvui \<times> error option" where
  "getLocalVersion_loop w e tocReader =
     (case ReadString newline tocReader of
        (line, Some err, rd) \<Rightarrow>
          if err = EOF then (e, Some (Errorf (''local version not found at '' @ tocFile e)))
          else (e, Some (Wrap err (''cannot read lines from '' @ tocFile e)))
      | (line, None, rd) \<Rightarrow>
          if HasPrefix line version_prefix then
            (case slice line (int (length version_prefix)) (int (length line) - 1) of
               None \<Rightarrow> (e, Some (Panic ''slice bounds out of range''))
             | Some raw \<Rightarrow>
                 (let rawVer = strings_TrimSpace w raw in
                  case strconv_ParseFloat w rawVer of
                    (v, Some err) \<Rightarrow>
                      (e\<lparr>localVersion := v\<rparr>,
                       Some (Wrap err (''cannot parse version number '' @ rawVer)))
                  | (v, None) \<Rightarrow> (e\<lparr>localVersion := v\<rparr>, None)))
          else getLocalVersion_loop w e rd)"
  by pat_completeness auto
termination
  apply (relation "measure (\<lambda>(w, e, rd). length (fst rd))")
   apply simp
  apply (auto simp: ReadString_def split: if_splits)
  subgoal for buf
    using length_dropWhile_le [of "\<lambda>c. c \<noteq> newline" buf]
    by (cases "dropWhile (\<lambda>c. c \<noteq> newline) buf") auto
  done

declare getLocalVersion_loop.simps [simp del]

definition getLocalVersion :: "world \<Rightarrow> elvui \<Rightarrow> elvui \<times> error option \<times> event list" where
  "getLocalVersion w e =
     (case os_Open w (tocFile e) of
        Inl err \<Rightarrow> (e, Some (Wrap err (''cannot open file '' @ tocFile e)), [EvOpen (tocFile e)])
      | Inr toc \<Rightarrow>
          (case getLocalVersion_loop w e toc of
             (e', r) \<Rightarrow> (e', r, [EvOpen (tocFile e), EvClose (tocFile e)])))"

definition wowKey :: string where
  "wowKey = ''SOFTWARE'' @ [sep] @ ''Wow6432Node'' @ [sep] @ ''Blizzard Entertainment''
     @ [sep] @ ''World of Warcraft''"

text \<open>
  Methods with a pointer receiver return the struct as they leave it, the error
  (\<open>None\<close> is \<^verbatim>\<open>nil\<close>) and the events of the call. A deferred
  \<^verbatim>\<open>Close\<close> is the last event of its function.
\<close>

definition init :: "world \<Rightarrow> string \<Rightarrow> elvui \<Rightarrow> elvui \<times> error option \<times> event list" where
  "init w configPath e =
     (case ioutil_ReadFile w configPath of
        Inl err \<Rightarrow>
          (e, Some (Wrap err (''cannot read file '' @ configPath)), [EvReadFile configPath])
      | Inr rawConfig \<Rightarrow>
          (case json_Unmarshal w rawConfig (Page e, Directories e) of
             (Some err, (pg, dirs)) \<Rightarrow>
               (e\<lparr>Page := pg, Directories := dirs\<rparr>,
                Some (Wrap err ''cannot unmarshal config''), [EvReadFile configPath])
           | (None, (pg, dirs)) \<Rightarrow>
               (let e1 = e\<lparr>Page := pg, Directories := dirs\<rparr> in
                case registry_OpenKey w wowKey of
                  Some err \<Rightarrow>
                    (e1, Some (Wrap err ''cannot find WoW install directory''),
                     [EvReadFile configPath, EvOpenKey wowKey])
                | None \<Rightarrow>
                    (case registry_GetStringValue w wowKey ''InstallPath'' of
                       Inl err \<Rightarrow>
                         (e1, Some (Wrap err ''cannot find WoW install directory''),
                          [EvReadFile configPath, EvOpenKey wowKey,
                           EvGetStringValue wowKey ''InstallPath'', EvClose wowKey])
                     | Inr s \<Rightarrow>
                         (e1\<lparr>addon := filepath_Join [s, ''Interface'', ''AddOns'']\<rparr>, None,
                          [EvReadFile configPath, EvOpenKey wowKey,
                           EvGetStringValue wowKey ''InstallPath'', EvClose wowKey])))))"

definition setRemoteVersionNDownloadURL ::
  "world \<Rightarrow> elvui \<Rightarrow> elvui \<times> error option \<times> event list" where
  "setRemoteVersionNDownloadURL w e =
     (case http_NewRequest w (Page e) of
        Some err \<Rightarrow> (e, Some (WithStack err), [])
      | None \<Rightarrow>
          (case client_Do w (client e) (Page e) of
             Inl err \<Rightarrow> (e, Some (WithStack err), [EvDo (Page e)])
           | Inr body \<Rightarrow>
               (case json_Decode w body of
                  Inl err \<Rightarrow> (e, Some (WithStack err), [EvDo (Page e), EvClose (Page e)])
                | Inr apiResponse \<Rightarrow>
                    (case strconv_ParseFloat w (Version apiResponse) of
                       (v, Some err) \<Rightarrow>
                         (e\<lparr>remoteVersion := v\<rparr>,
                          Some (Wrap err (''cannot parse version number '' @ Version apiResponse)),
                          [EvDo (Page e), EvClose (Page e)])
                     | (v, None) \<Rightarrow>
                         (e\<lparr>remoteVersion := v, downloadURL := URL apiResponse\<rparr>, None,
                          [EvDo (Page e), EvClose (Page e)])))))"

text \<open>The first loop of \<^verbatim>\<open>downloadAndExtract\<close>: remove older directories.\<close>

fun removeOlder :: "world \<Rightarrow> string \<Rightarrow> string list \<Rightarrow> error option \<times> event list" where
  "removeOlder w a [] = (None, [])"
| "removeOlder w a (dir # dirs) =
     (let addonDir = filepath_Join [a, dir] in
      case os_RemoveAll w addonDir of
        Some err \<Rightarrow>
          (Some (Wrap err (''cannot remove directory '' @ addonDir)), [EvRemoveAll addonDir])
      | None \<Rightarrow>
          (case removeOlder w a dirs of (r, t) \<Rightarrow> (r, EvRemoveAll addonDir # t)))"

text \<open>The second loop: one round for each entry of the archive, in the archive's order.\<close>

fun extractFiles :: "world \<Rightarrow> string \<Rightarrow> zipFile list \<Rightarrow> error option \<times> event list" where
  "extractFiles w a [] = (None, [])"
| "extractFiles w a (f # fs) =
     (if IsDir f then
        (let addonDir = filepath_Join [a, Name f] in
         case os_MkdirAll w addonDir (Mode f) of
           Some err \<Rightarrow>
             (Some (Wrap err (''cannot create directory '' @ addonDir)),
              [EvMkdirAll addonDir (Mode f)])
         | None \<Rightarrow>
             (case extractFiles w a fs of (r, t) \<Rightarrow> (r, EvMkdirAll addonDir (Mode f) # t)))
      else
        (case Open f of
           Inl err \<Rightarrow> (Some (Wrap err (''cannot open file '' @ Name f @ '' inside zip'')), [])
         | Inr fileInZip \<Rightarrow>
             (let localName = filepath_Join [a, Name f] in
              case os_Create w localName of
                Some err \<Rightarrow>
                  (Some (Wrap err (''cannot create file '' @ localName)), [EvCreate localName])
              | None \<Rightarrow>
                  (case io_Copy w localName fileInZip of
                     Some err \<Rightarrow>
                       (Some (Wrap err (''cannot extract content from '' @ Name f @ '' to ''
                                         @ localName)),
                        [EvCreate localName, EvCopy localName fileInZip])
                   | None \<Rightarrow>
                       (case extractFiles w a fs of
                          (r, t) \<Rightarrow>
                            (r, EvCreate localName # EvCopy localName fileInZip
                                # EvClose localName # EvClose (Name f) # t))))))"

definition downloadAndExtract :: "world \<Rightarrow> elvui \<Rightarrow> error option \<times> event list" where
  "downloadAndExtract w e =
     (case http_Get w (downloadURL e) of
        Inl err \<Rightarrow>
          (Some (Wrap err (''cannot download file url '' @ downloadURL e)),
           [EvGet (downloadURL e)])
      | Inr response \<Rightarrow>
          (case ReadAll (Body response) of
             (respBytes, Some err) \<Rightarrow>
               (Some (Wrap err ''cannot read response''),
                [EvGet (downloadURL e), EvClose (downloadURL e)])
           | (respBytes, None) \<Rightarrow>
               (case zip_NewReader w respBytes (ContentLength response) of
                  Inl err \<Rightarrow>
                    (Some (Wrap err ''cannot create zip reader''),
                     [EvGet (downloadURL e), EvClose (downloadURL e)])
                | Inr files \<Rightarrow>
                    (case removeOlder w (addon e) (Directories e) of
                       (Some err, t1) \<Rightarrow>
                         (Some err, EvGet (downloadURL e) # t1 @ [EvClose (downloadURL e)])
                     | (None, t1) \<Rightarrow>
                         (case extractFiles w (addon e) files of
                            (r, t2) \<Rightarrow>
                              (r, EvGet (downloadURL e) # t1 @ t2
                                    @ [EvClose (downloadURL e)]))))))"

text \<open>
  \<^verbatim>\<open>main\<close>. A run is the list of its events and the exit status of the
  process: \<^verbatim>\<open>log.Fatalf\<close> logs and exits with status 1, returning from
  \<^verbatim>\<open>main\<close> exits with status 0. \<open>quiet\<close> is the parsed
  \<^verbatim>\<open>-quiet\<close> flag.
\<close>

definition conf0 :: elvui where
  "conf0 = \<lparr>Page = [], Directories = [], addon = [], client = 5, localVersion = Finite 0,
     localName = ''ElvUI'', remoteVersion = Finite 0, downloadURL = []\<rparr>"

definition finish :: "bool \<Rightarrow> event list" where
  "finish quiet = (if quiet then [] else [LogPressEnter, EvReadStdin])"

text \<open>The part of \<^verbatim>\<open>main\<close> from the comparison of the versions on.\<close>

definition main_compare :: "world \<Rightarrow> bool \<Rightarrow> elvui \<Rightarrow> event list \<times> nat" where
  "main_compare w quiet conf =
     (if float_gt (remoteVersion conf) (localVersion conf) then
        (case downloadAndExtract w conf of
           (Some err, t) \<Rightarrow>
             (LogUpgrading (localVersion conf) (remoteVersion conf) # t @ [LogFatal err], 1)
         | (None, t) \<Rightarrow>
             (LogUpgrading (localVersion conf) (remoteVersion conf) # t @ [LogSuccess]
                @ finish quiet, 0))
      else (LogNothingToDo # finish quiet, 0))"

definition main :: "world \<Rightarrow> bool \<Rightarrow> event list \<times> nat" where
  "main w quiet =
     (case init w ''config.json'' conf0 of
        (c1, Some err, t1) \<Rightarrow> (t1 @ [LogFatal err], 1)
      | (c1, None, t1) \<Rightarrow>
          (case getLocalVersion w c1 of
             (c2, Some err, t2) \<Rightarrow> (t1 @ t2 @ [LogFatal err], 1)
           | (c2, None, t2) \<Rightarrow>
               (case setRemoteVersionNDownloadURL w c2 of
                  (c3, Some err, t3) \<Rightarrow> (t1 @ t2 @ t3 @ [LogFatal err], 1)
                | (c3, None, t3) \<Rightarrow>
                    (case main_compare w quiet c3 of
                       (t4, code) \<Rightarrow> (t1 @ t2 @ t3 @ t4, code)))))"

section \<open>The two older revisions, from the download on\<close>


subsection \<open>The oldest revision (src/unnamed/part_000)\<close>







subsection \<open>The middle revision (src/unnamed/part_001)\<close>





section \<open>A model of the JSON decoder\<close>

text \<open>
  \<^verbatim>\<open>json.NewDecoder(r).Decode(v)\<close> reads the next JSON value from the stream and
  unmarshals the text of that value into \<open>v\<close>; it does not look at what follows the
  value. An object or an array ends with its closing bracket; a number, a string or a
  literal at top level ends before the next byte, or where the stream ends.

  \<open>scan_value\<close> finds the first value of a text, byte by byte, with the grammar of
  RFC 8259, as the scanner of \<^verbatim>\<open>encoding/json\<close> does: \<open>Complete v rest\<close> when
  the value \<open>v\<close> (with the white space before it) is followed by \<open>rest\<close>,
  \<open>Pending done\<close> when the text ends first (\<open>done\<close>: a top-level number, string or
  literal is complete if nothing follows), \<open>Invalid\<close> at a byte the grammar does not
  allow. A text is valid JSON when it is one value with nothing but white space around it.
  In \<open>Decode unmarshal\<close> the unmarshalling of the value's text into the struct stays a
  parameter. The limit that the library puts on the depth of nesting is not modelled.
\<close>

datatype ctx = InObj | InArr

datatype mode =
    BeginValue | BeginValueOrEnd | BeginKeyOrEnd | BeginKey | AfterKey | EndValue | EndTop
  | InStr bool | InStrEsc bool | InStrU bool nat
  | NumNeg | NumZero | NumInt | NumDot | NumFrac | NumE | NumESign | NumEDig
  | Lit string

datatype step_result = Next mode "ctx list" | DoneBefore | DoneAfter | Bad

datatype scan_result = Complete string string | Pending bool | Invalid

definition dquote :: char where
  "dquote = CHR 0x22"

definition isSpaceJSON :: "char \<Rightarrow> bool" where
  "isSpaceJSON c = (c \<in> set [CHR '' '', CHR 0x09, CHR 0x0D, CHR 0x0A])"

definition isDigit :: "char \<Rightarrow> bool" where
  "isDigit c = (c \<in> set ''0123456789'')"

definition isHex :: "char \<Rightarrow> bool" where
  "isHex c = (c \<in> set ''0123456789abcdefABCDEF'')"

definition container_done :: "ctx list \<Rightarrow> step_result" where
  "container_done st = (if st = [] then DoneAfter else Next EndValue st)"

definition scalar_done :: "ctx list \<Rightarrow> step_result" where
  "scalar_done st = (if st = [] then Next EndTop [] else Next EndValue st)"

definition begin_value :: "ctx list \<Rightarrow> char \<Rightarrow> step_result" where
  "begin_value st c =
     (if c = CHR ''{'' then Next BeginKeyOrEnd (InObj # st)
      else if c = CHR ''['' then Next BeginValueOrEnd (InArr # st)
      else if c = dquote then Next (InStr False) st
      else if c = CHR ''-'' then Next NumNeg st
      else if c = CHR ''0'' then Next NumZero st
      else if isDigit c then Next NumInt st
      else if c = CHR ''t'' then Next (Lit ''rue'') st
      else if c = CHR ''f'' then Next (Lit ''alse'') st
      else if c = CHR ''n'' then Next (Lit ''ull'') st
      else Bad)"

definition end_value :: "ctx list \<Rightarrow> char \<Rightarrow> step_result" where
  "end_value st c =
     (case st of
        [] \<Rightarrow> DoneBefore
      | InObj # r \<Rightarrow>
          if isSpaceJSON c then Next EndValue st
          else if c = CHR '','' then Next BeginKey st
          else if c = CHR ''}'' then container_done r
          else Bad
      | InArr # r \<Rightarrow>
          if isSpaceJSON c then Next EndValue st
          else if c = CHR '','' then Next BeginValue st
          else if c = CHR '']'' then container_done r
          else Bad)"

fun step :: "mode \<Rightarrow> ctx list \<Rightarrow> char \<Rightarrow> step_result" where
  "step BeginValue st c = (if isSpaceJSON c then Next BeginValue st else begin_value st c)"
| "step BeginValueOrEnd st c =
     (if isSpaceJSON c then Next BeginValueOrEnd st
      else if c = CHR '']'' then (case st of InArr # r \<Rightarrow> container_done r | _ \<Rightarrow> Bad)
      else begin_value st c)"
| "step BeginKeyOrEnd st c =
     (if isSpaceJSON c then Next BeginKeyOrEnd st
      else if c = CHR ''}'' then (case st of InObj # r \<Rightarrow> container_done r | _ \<Rightarrow> Bad)
      else if c = dquote then Next (InStr True) st
      else Bad)"
| "step BeginKey st c =
     (if isSpaceJSON c then Next BeginKey st
      else if c = dquote then Next (InStr True) st
      else Bad)"
| "step AfterKey st c =
     (if isSpaceJSON c then Next AfterKey st
      else if c = CHR '':'' then Next BeginValue st
      else Bad)"
| "step EndValue st c = end_value st c"
| "step EndTop st c = DoneBefore"
| "step (InStr k) st c =
     (if c = dquote then (if k then Next AfterKey st else scalar_done st)
      else if c = CHR 0x5C then Next (InStrEsc k) st
      else if (of_char c :: nat) < 32 then Bad
      else Next (InStr k) st)"
| "step (InStrEsc k) st c =
     (if c = dquote \<or> c = CHR 0x5C \<or> c \<in> set ''/bfnrt'' then Next (InStr k) st
      else if c = CHR ''u'' then Next (InStrU k 4) st
      else Bad)"
| "step (InStrU k n) st c =
     (if isHex c then (if n \<le> 1 then Next (InStr k) st else Next (InStrU k (n - 1)) st)
      else Bad)"
| "step NumNeg st c =
     (if c = CHR ''0'' then Next NumZero st
      else if isDigit c then Next NumInt st
      else Bad)"
| "step NumZero st c =
     (if c = CHR ''.'' then Next NumDot st
      else if c = CHR ''e'' \<or> c = CHR ''E'' then Next NumE st
      else end_value st c)"
| "step NumInt st c =
     (if isDigit c then Next NumInt st
      else if c = CHR ''.'' then Next NumDot st
      else if c = CHR ''e'' \<or> c = CHR ''E'' then Next NumE st
      else end_value st c)"
| "step NumDot st c = (if isDigit c then Next NumFrac st else Bad)"
| "step NumFrac st c =
     (if isDigit c then Next NumFrac st
      else if c = CHR ''e'' \<or> c = CHR ''E'' then Next NumE st
      else end_value st c)"
| "step NumE st c =
     (if c = CHR ''+'' \<or> c = CHR ''-'' then Next NumESign st
      else if isDigit c then Next NumEDig st
      else Bad)"
| "step NumESign st c = (if isDigit c then Next NumEDig st else Bad)"
| "step NumEDig st c = (if isDigit c then Next NumEDig st else end_value st c)"
| "step (Lit rem) st c =
     (case rem of
        [] \<Rightarrow> Bad
      | r # rs \<Rightarrow>
          if c = r then (if rs = [] then scalar_done st else Next (Lit rs) st) else Bad)"

definition ends_scalar :: "mode \<Rightarrow> ctx list \<Rightarrow> bool" where
  "ends_scalar m st =
     (st = [] \<and> (m = EndTop \<or> m = NumZero \<or> m = NumInt \<or> m = NumFrac \<or> m = NumEDig))"

fun scan :: "mode \<Rightarrow> ctx list \<Rightarrow> string \<Rightarrow> string \<Rightarrow> scan_result" where
  "scan m st seen [] = Pending (ends_scalar m st)"
| "scan m st seen (c # cs) =
     (case step m st c of
        Next m' st' \<Rightarrow> scan m' st' (c # seen) cs
      | DoneBefore \<Rightarrow> Complete (rev seen) (c # cs)
      | DoneAfter \<Rightarrow> Complete (rev (c # seen)) cs
      | Bad \<Rightarrow> Invalid)"

definition scan_value :: "string \<Rightarrow> scan_result" where
  "scan_value s = scan BeginValue [] [] s"

definition valid_json :: "string \<Rightarrow> bool" where
  "valid_json s =
     (case scan_value s of
        Complete v rest \<Rightarrow> list_all isSpaceJSON rest
      | Pending done \<Rightarrow> done
      | Invalid \<Rightarrow> False)"

definition Decode :: "(string \<Rightarrow> error + APIResponse) \<Rightarrow> reader \<Rightarrow> error + APIResponse" where
  "Decode unmarshal rd =
     (case rd of (buf, fin) \<Rightarrow>
        (case scan_value buf of
           Complete v rest \<Rightarrow> unmarshal v
         | Invalid \<Rightarrow> Inl (LibErr ''invalid character'')
         | Pending done \<Rightarrow>
             if fin \<noteq> EOF then Inl fin
             else if done then unmarshal buf
             else if list_all isSpaceJSON buf then Inl EOF
             else Inl (LibErr ''unexpected EOF'')))"

definition begins_with_value :: "reader \<Rightarrow> bool" where
  "begins_with_value rd =
     (case rd of (buf, fin) \<Rightarrow>
        (case scan_value buf of
           Complete v rest \<Rightarrow> True
         | Pending done \<Rightarrow> done \<and> fin = EOF
         | Invalid \<Rightarrow> False))"

section \<open>Notions used in the statements\<close>

text \<open>The events that change the file system, and the path each of them is aimed at.\<close>

fun is_remove :: "event \<Rightarrow> bool" where
  "is_remove (EvRemoveAll p) = True"
| "is_remove ev = False"

fun is_write :: "event \<Rightarrow> bool" where
  "is_write (EvMkdirAll p m) = True"
| "is_write (EvCreate p) = True"
| "is_write (EvCopy p b) = True"
| "is_write ev = False"

definition is_mutation :: "event \<Rightarrow> bool" where
  "is_mutation ev = (is_remove ev \<or> is_write ev)"

fun target :: "event \<Rightarrow> string" where
  "target (EvRemoveAll p) = p"
| "target (EvMkdirAll p m) = p"
| "target (EvCreate p) = p"
| "target (EvCopy p b) = p"
| "target ev = []"

fun is_download :: "event \<Rightarrow> bool" where
  "is_download (EvGet u) = True"
| "is_download ev = False"

fun is_query :: "event \<Rightarrow> bool" where
  "is_query (EvDo u) = True"
| "is_query ev = False"

fun is_lookup :: "event \<Rightarrow> bool" where
  "is_lookup (EvGetStringValue k n) = True"
| "is_lookup ev = False"

fun is_close :: "event \<Rightarrow> bool" where
  "is_close (EvClose p) = True"
| "is_close ev = False"

text \<open>
  The stages of the pipeline. A stage is entered by its first call to the outside; the
  comparison of the versions shows in the line logged right after it.
\<close>

datatype stage = ConfigLoad | InstallPath | LocalVersion | RemoteVersion | Compare | FetchExtract

fun stage_entry :: "event \<Rightarrow> stage option" where
  "stage_entry (EvReadFile p) = Some ConfigLoad"
| "stage_entry (EvOpenKey k) = Some InstallPath"
| "stage_entry (EvOpen p) = Some LocalVersion"
| "stage_entry (EvDo u) = Some RemoteVersion"
| "stage_entry (LogUpgrading a b) = Some Compare"
| "stage_entry LogNothingToDo = Some Compare"
| "stage_entry (EvGet u) = Some FetchExtract"
| "stage_entry ev = None"

definition stage_entries :: "event list \<Rightarrow> stage list" where
  "stage_entries t = List.map_filter stage_entry t"

definition pipeline :: "stage list" where
  "pipeline = [ConfigLoad, InstallPath, LocalVersion, RemoteVersion, Compare, FetchExtract]"

fun is_fatal :: "event \<Rightarrow> bool" where
  "is_fatal (LogFatal err) = True"
| "is_fatal ev = False"

text \<open>
  The lines of a text: the newline-terminated pieces, each with its newline, in order. What
  follows the last newline is not among them.
\<close>

fun lines_acc :: "string \<Rightarrow> string \<Rightarrow> string list" where
  "lines_acc cur [] = []"
| "lines_acc cur (c # cs) =
     (if c = newline then (cur @ [c]) # lines_acc [] cs else lines_acc (cur @ [c]) cs)"

definition complete_lines :: "string \<Rightarrow> string list" where
  "complete_lines s = lines_acc [] s"

definition is_marker :: "string \<Rightarrow> bool" where
  "is_marker l = HasPrefix l version_prefix"

text \<open>
  All the lines of a text: the newline-terminated ones and, when the text does not end in a
  newline, the piece after the last newline as well.
\<close>

definition last_piece :: "string \<Rightarrow> string" where
  "last_piece s = rev (takeWhile (\<lambda>c. c \<noteq> newline) (rev s))"

definition file_lines :: "string \<Rightarrow> string list" where
  "file_lines s = complete_lines s @ (if last_piece s = [] then [] else [last_piece s])"

text \<open>
  A name is local when none of its components is \<^verbatim>\<open>..\<close>, so that joining it to a
  directory cannot climb out of the directory.
\<close>

definition local_name :: "string \<Rightarrow> bool" where
  "local_name n = (''..'' \<notin> set (splitPath n))"

text \<open>What the three revisions are compared on: the changes to the file system and the
  lines that tell the outcome of the comparison and of the upgrade.\<close>

fun is_outcome :: "event \<Rightarrow> bool" where
  "is_outcome (LogUpgrading a b) = True"
| "is_outcome LogSuccess = True"
| "is_outcome LogNothingToDo = True"
| "is_outcome ev = False"

definition behaviour :: "event list \<Rightarrow> event list" where
  "behaviour t = filter (\<lambda>ev. is_mutation ev \<or> is_outcome ev) t"


text \<open>Normal forms of cleaned component lists, for the proofs about paths.\<close>

definition plain :: "string \<Rightarrow> bool" where
  "plain c = (c \<noteq> [] \<and> c \<noteq> ''.'' \<and> c \<noteq> ''..'')"

definition sepfree :: "string \<Rightarrow> bool" where
  "sepfree c = (\<forall>x \<in> set c. \<not> isPathSeparator x)"

fun nfAcc :: "string list \<Rightarrow> bool" where
  "nfAcc [] = True"
| "nfAcc (a # as) =
     (if a = ''..'' then list_all (\<lambda>x. x = ''..'') as else plain a \<and> nfAcc as)"

section \<open>An example installation\<close>

text \<open>
  A concrete world, on which the theorems below are exercised: World of Warcraft installed
  under \<^verbatim>\<open>C:\<close>, ElvUI 13.52 installed, version 13.60 on offer.
\<close>

definition asciiSpace :: "char \<Rightarrow> bool" where
  "asciiSpace c = (c \<in> set [CHR 0x09, CHR 0x0A, CHR 0x0B, CHR 0x0C, CHR 0x0D, CHR '' ''])"

text \<open>What \<^verbatim>\<open>strings.TrimSpace\<close> does on ASCII text.\<close>

definition trimASCII :: "string \<Rightarrow> string" where
  "trimASCII s = rev (dropWhile asciiSpace (rev (dropWhile asciiSpace s)))"

definition demo_ParseFloat :: "string \<Rightarrow> float64 \<times> error option" where
  "demo_ParseFloat s =
     (if s = ''13.52'' then (Finite 13.52, None)
      else if s = ''13.60'' then (Finite 13.6, None)
      else if s = ''12.00'' then (Finite 12, None)
      else (Finite 0, Some (LibErr ''invalid syntax'')))"

definition demo_install :: string where
  "demo_install = ''C:'' @ [sep] @ ''WoW'' @ [sep]"

definition demo_addon :: string where
  "demo_addon = ''C:'' @ [sep] @ ''WoW'' @ [sep] @ ''Interface'' @ [sep] @ ''AddOns''"

definition demo_toc :: string where
  "demo_toc = demo_addon @ [sep] @ ''ElvUI'' @ [sep] @ ''ElvUI_Mainline.toc''"

definition demo_toc_text :: string where
  "demo_toc_text =
     ''## Interface: 100207'' @ [newline] @ ''## Version: 13.52'' @ [CHR 0x0D, newline]
       @ ''## Title: ElvUI'' @ [newline]"

definition demo_page :: string where
  "demo_page = ''https://api.tukui.org/v1/addon/elvui''"

definition demo_url :: string where
  "demo_url = ''https://api.tukui.org/v1/download/elvui-13.60.zip''"

definition demo_dirs :: "string list" where
  "demo_dirs = [''ElvUI'', ''ElvUI_Options'']"

definition demo_files :: "zipFile list" where
  "demo_files =
     [\<lparr>Name = ''ElvUI/'', IsDir = True, Mode = 493, Open = Inr []\<rparr>,
      \<lparr>Name = ''ElvUI/ElvUI_Mainline.toc'', IsDir = False, Mode = 420,
       Open = Inr ''## Version: 13.60''\<rparr>]"

definition demo_world :: world where
  "demo_world =
     \<lparr>ioutil_ReadFile = (\<lambda>p. if p = ''config.json'' then Inr ''{}''
                              else Inl (LibErr ''file not found'')),
      json_Unmarshal = (\<lambda>raw cfg. (None, (demo_page, demo_dirs))),
      registry_OpenKey = (\<lambda>k. if k = wowKey then None else Some (LibErr ''key not found'')),
      registry_GetStringValue = (\<lambda>k n. if k = wowKey \<and> n = ''InstallPath''
                                          then Inr demo_install
                                          else Inl (LibErr ''value not found'')),
      os_Open = (\<lambda>p. if p = demo_toc then Inr (demo_toc_text, EOF)
                       else Inl (LibErr ''file not found'')),
      strings_TrimSpace = trimASCII,
      strconv_ParseFloat = demo_ParseFloat,
      http_NewRequest = (\<lambda>u. None),
      client_Do = (\<lambda>t u. if u = demo_page then Inr (''{}'', EOF)
                            else Inl (LibErr ''no such host'')),
      json_Decode = (\<lambda>rd. Inr \<lparr>URL = demo_url, Version = ''13.60''\<rparr>),
      http_Get = (\<lambda>u. if u = demo_url then Inr \<lparr>Body = (''PK'', EOF), ContentLength = 2\<rparr>
                        else Inl (LibErr ''no such host'')),
      zip_NewReader = (\<lambda>b n. Inr demo_files),
      os_RemoveAll = (\<lambda>p. None),
      os_MkdirAll = (\<lambda>p m. None),
      os_Create = (\<lambda>p. None),
      io_Copy = (\<lambda>p b. None),
      strings_ToLower = (\<lambda>s. if s = ''ElvUI'' then ''elvui'' else s),
      fmt_float2 = (\<lambda>x. if x = Finite 13.6 then ''13.60'' else ''0.00'')\<rparr>"

text \<open>The struct as \<^verbatim>\<open>main\<close> has it in that world when it compares the versions.\<close>

definition demo_conf :: elvui where
  "demo_conf = \<lparr>Page = demo_page, Directories = demo_dirs, addon = demo_addon, client = 5,
     localVersion = Finite 13.52, localName = ''ElvUI'', remoteVersion = Finite 13.6,
     downloadURL = demo_url\<rparr>"

text \<open>
  What \<^verbatim>\<open>getLocalVersion\<close> does with a marker line: the text after the
  prefix without the line's last character, trimmed, goes to \<^verbatim>\<open>ParseFloat\<close>.
\<close>

definition parse_version :: "world \<Rightarrow> elvui \<Rightarrow> string \<Rightarrow> elvui \<times> error option" where
  "parse_version w e line =
     (let rawVer = strings_TrimSpace w (butlast (drop (length version_prefix) line)) in
      case strconv_ParseFloat w rawVer of
        (v, Some err) \<Rightarrow>
          (e\<lparr>localVersion := v\<rparr>, Some (Wrap err (''cannot parse version number '' @ rawVer)))
      | (v, None) \<Rightarrow> (e\<lparr>localVersion := v\<rparr>, None))"

text \<open>A version file without a marker line, and one whose version does not parse.\<close>

definition titleonly_world :: world where
  "titleonly_world = demo_world\<lparr>os_Open := \<lambda>p. Inr (''## Title: ElvUI'' @ [newline], EOF)\<rparr>"

definition badversion_world :: world where
  "badversion_world =
     demo_world\<lparr>os_Open := \<lambda>p. Inr (''## Version: beta'' @ [newline], EOF)\<rparr>"

text \<open>A version file whose marker line is its last line, without a newline after it.\<close>

definition headless_toc :: string where
  "headless_toc = ''## Title: ElvUI'' @ [newline] @ ''## Version: 13.52''"

definition headless_world :: world where
  "headless_world = demo_world\<lparr>os_Open := \<lambda>p. Inr (headless_toc, EOF)\<rparr>"

text \<open>Variations of the example in which one stage fails, or nothing is to do.\<close>

definition noconfig_world :: world where
  "noconfig_world = demo_world\<lparr>ioutil_ReadFile := \<lambda>p. Inl (LibErr ''file not found'')\<rparr>"

definition nokey_world :: world where
  "nokey_world = demo_world\<lparr>registry_OpenKey := \<lambda>k. Some (LibErr ''key not found'')\<rparr>"

definition offline_world :: world where
  "offline_world = demo_world\<lparr>client_Do := \<lambda>t u. Inl (LibErr ''timeout'')\<rparr>"

definition locked_world :: world where
  "locked_world = demo_world\<lparr>os_RemoveAll := \<lambda>p. Some (LibErr ''access denied'')\<rparr>"

definition nodownload_world :: world where
  "nodownload_world = demo_world\<lparr>http_Get := \<lambda>u. Inl (LibErr ''no such host'')\<rparr>"

definition uptodate_world :: world where
  "uptodate_world =
     demo_world\<lparr>json_Decode := \<lambda>rd. Inr \<lparr>URL = demo_url, Version = ''13.52''\<rparr>\<rparr>"

definition garbled_world :: world where
  "garbled_world =
     demo_world\<lparr>json_Decode := \<lambda>rd. Inr \<lparr>URL = demo_url, Version = ''beta''\<rparr>\<rparr>"

text \<open>An archive with an entry whose name climbs out of the directory it is unpacked in.\<close>

definition slip_world :: world where
  "slip_world =
     demo_world\<lparr>zip_NewReader := \<lambda>b n.
       Inr [\<lparr>Name = ''../evil.txt'', IsDir = False, Mode = 420, Open = Inr ''x''\<rparr>]\<rparr>"

definition evil_path :: string where
  "evil_path = ''C:'' @ [sep] @ ''WoW'' @ [sep] @ ''Interface'' @ [sep] @ ''evil.txt''"




text \<open>
  Answers of the endpoint: a JSON object followed by text that is not JSON, and a page that
  is not JSON at all. The decoder of both worlds is the modelled one, with the unmarshalling
  of the example object.
\<close>

definition demo_value :: string where
  \<open>demo_value =
     ''{"url":"https://api.tukui.org/v1/download/elvui-13.60.zip","version":"13.60"}''\<close>

definition demo_Unmarshal :: "string \<Rightarrow> error + APIResponse" where
  "demo_Unmarshal v =
     (if v = demo_value then Inr \<lparr>URL = demo_url, Version = ''13.60''\<rparr>
      else Inl (LibErr ''cannot unmarshal''))"

definition slop_body :: string where
  "slop_body = demo_value @ ''</html>''"

definition slop_world :: world where
  "slop_world =
     demo_world\<lparr>client_Do := \<lambda>t u. Inr (slop_body, EOF), json_Decode := Decode demo_Unmarshal\<rparr>"

definition notjson_world :: world where
  "notjson_world =
     demo_world\<lparr>client_Do := \<lambda>t u. Inr (''<html>Service Unavailable</html>'', EOF),
       json_Decode := Decode demo_Unmarshal\<rparr>"

section \<open>Lemmas about paths\<close>


lemma splitPath_ne [simp]: "splitPath s \<noteq> []"
  by (induction s) (auto split: list.splits)

lemma sep_isPathSeparator [simp]: "isPathSeparator sep"
  by (simp add: isPathSeparator_def)

lemma splitPath_append_sep:
  "isPathSeparator d \<Longrightarrow> splitPath (xs @ d # ys) = splitPath xs @ splitPath ys"
  by (induction xs) (auto split: list.splits)

lemma splitPath_nosep: "sepfree s \<Longrightarrow> splitPath s = [s]"
  by (induction s) (auto simp: sepfree_def)

lemma splitPath_sepfree: "list_all sepfree (splitPath s)"
  by (induction s) (auto simp: sepfree_def split: list.splits)

lemma splitPath_joinWith:
  "isPathSeparator d \<Longrightarrow> cs \<noteq> [] \<Longrightarrow> list_all sepfree cs \<Longrightarrow> splitPath (joinWith d cs) = cs"
proof (induction d cs rule: joinWith.induct)
  case (1 d) then show ?case by simp
next
  case (2 d x) then show ?case by (simp add: splitPath_nosep)
next
  case (3 d x y ys)
  then show ?case
    by (simp add: splitPath_append_sep splitPath_nosep)
qed

lemma splitPath_joinWith_concat:
  "isPathSeparator d \<Longrightarrow> es \<noteq> [] \<Longrightarrow> splitPath (joinWith d es) = concat (map splitPath es)"
proof (induction d es rule: joinWith.induct)
  case (1 d) then show ?case by simp
next
  case (2 d x) then show ?case by simp
next
  case (3 d x y ys)
  then show ?case by (simp add: splitPath_append_sep)
qed

lemma cleanAcc_append:
  "cleanAcc r acc (xs @ ys) = cleanAcc r (rev (cleanAcc r acc xs)) ys"
  by (induction xs arbitrary: acc) (auto split: list.splits)

lemma cleanAcc_nodotdot:
  "''..'' \<notin> set ys \<Longrightarrow> cleanAcc r acc ys = rev acc @ filter plain ys"
  by (induction ys arbitrary: acc) (auto simp: plain_def)

lemma cleanAcc_sepfree:
  "list_all sepfree acc \<Longrightarrow> list_all sepfree xs \<Longrightarrow> list_all sepfree (cleanAcc r acc xs)"
  by (induction xs arbitrary: acc) (auto split: list.splits)

lemma cleanAcc_rooted_plain:
  "list_all plain acc \<Longrightarrow> list_all plain (cleanAcc True acc xs)"
  by (induction xs arbitrary: acc) (auto simp: plain_def split: list.splits)

lemma cleanAcc_rel_nf:
  "nfAcc acc \<Longrightarrow> nfAcc (rev (cleanAcc False acc xs))"
  by (induction xs arbitrary: acc) (auto simp: plain_def split: list.splits)

lemma nfAcc_after_dotdot:
  "nfAcc (xs @ ''..'' # ys) \<Longrightarrow> list_all (\<lambda>x. x = ''..'') ys"
  by (induction xs) (auto split: if_splits)

lemma nfAcc_elem:
  "nfAcc xs \<Longrightarrow> x \<in> set xs \<Longrightarrow> plain x \<or> x = ''..''"
  by (induction xs) (auto simp: list_all_iff split: if_splits)

lemma nfAcc_last_plain:
  "nfAcc (xs @ [o']) \<Longrightarrow> plain o' \<Longrightarrow> list_all plain xs"
  by (induction xs) (auto simp: plain_def list_all_iff split: if_splits)

lemma cleanAcc_rel_id:
  "nfAcc (rev cs @ acc) \<Longrightarrow> cleanAcc False acc cs = rev acc @ cs"
proof (induction cs arbitrary: acc)
  case Nil
  then show ?case by simp
next
  case (Cons c cs)
  from Cons.prems have nf: "nfAcc (rev cs @ c # acc)" by simp
  have el: "plain c \<or> c = ''..''"
    using nfAcc_elem [OF nf, of c] by simp
  show ?case
  proof (cases "c = ''..''")
    case True
    with nf have "list_all (\<lambda>x. x = ''..'') acc"
      using nfAcc_after_dotdot [of "rev cs" acc] by simp
    with True Cons.IH [of "c # acc"] nf show ?thesis
      by (cases acc) auto
  next
    case False
    with el have "plain c" by simp
    with Cons.IH [of "c # acc"] nf show ?thesis
      by (simp add: plain_def)
  qed
qed

lemma isRoot_not_special: "isRoot r \<Longrightarrow> r \<noteq> ''.'' \<and> r \<noteq> ''..''"
  by (auto simp: isRoot_def isVolume_def isLetter_def)

lemma cleanComponents_idem:
  "cleanComponents (cleanComponents xs) = cleanComponents xs"
proof (cases xs)
  case Nil
  then show ?thesis by (simp add: cleanComponents_def)
next
  case (Cons r rest)
  show ?thesis
  proof (cases "isRoot r")
    case True
    have "list_all plain (cleanAcc True [] rest)"
      by (rule cleanAcc_rooted_plain) simp
    then have "cleanAcc True [] (cleanAcc True [] rest) = cleanAcc True [] rest"
      using cleanAcc_nodotdot [of "cleanAcc True [] rest" True "[]"]
      by (auto simp: list_all_iff plain_def filter_id_conv)
    with True Cons show ?thesis by (simp add: cleanComponents_def)
  next
    case False
    let ?out = "cleanAcc False [] xs"
    have nf: "nfAcc (rev ?out)"
      by (rule cleanAcc_rel_nf) simp
    have out: "cleanComponents xs = ?out"
      using False Cons by (simp add: cleanComponents_def)
    show ?thesis
    proof (cases ?out)
      case Nil
      with out show ?thesis by (simp add: cleanComponents_def)
    next
      case (Cons o' os)
      show ?thesis
      proof (cases "isRoot o'")
        case True
        from nf Cons have nf2: "nfAcc (rev os @ [o'])" by simp
        have "plain o' \<or> o' = ''..''"
          using nfAcc_elem [OF nf2, of o'] by simp
        with True have po: "plain o'" using isRoot_not_special by blast
        have "list_all plain (rev os)"
          using nfAcc_last_plain [OF nf2 po] .
        then have "list_all plain os" by (simp add: list_all_iff)
        then have "cleanAcc True [] os = os"
          using cleanAcc_nodotdot [of os True "[]"]
          by (auto simp: list_all_iff plain_def filter_id_conv)
        with True Cons out show ?thesis by (simp add: cleanComponents_def)
      next
        case False
        have "cleanAcc False [] ?out = ?out"
          using cleanAcc_rel_id [of ?out "[]"] nf by simp
        with False Cons out show ?thesis by (simp add: cleanComponents_def)
      qed
    qed
  qed
qed

lemma cleanComponents_sepfree:
  "list_all sepfree xs \<Longrightarrow> list_all sepfree (cleanComponents xs)"
  by (cases xs) (auto simp: cleanComponents_def cleanAcc_sepfree)

lemma components_sepfree: "list_all sepfree (components s)"
  by (simp add: components_def cleanComponents_sepfree splitPath_sepfree)

lemma components_fix: "cleanComponents (components s) = components s"
  by (simp add: components_def cleanComponents_idem) (simp add: cleanComponents_def)

lemma joinWith_nonempty: "length cs \<ge> 2 \<Longrightarrow> joinWith d cs \<noteq> []"
  by (induction d cs rule: joinWith.induct) auto

lemma components_render:
  assumes fx: "cleanComponents cs = cs" and sf: "list_all sepfree cs"
  shows "components (render cs) = cs"
proof (cases cs)
  case Nil
  then show ?thesis
    by (simp add: render_def components_def cleanComponents_def isRoot_def isVolume_def
        isPathSeparator_def sep_def)
next
  case (Cons c cs')
  note c = Cons
  show ?thesis
  proof (cases cs')
    case Nil
    show ?thesis
    proof (cases "isRoot c")
      case True
      from sf c have "sepfree c" by simp
      then have "splitPath (c @ [sep]) = [c, []]"
        using splitPath_append_sep [of sep c "[]"] by (simp add: splitPath_nosep)
      with True c Nil show ?thesis
        by (simp add: render_def components_def cleanComponents_def)
    next
      case False
      then have ne: "c \<noteq> []" by (simp add: isRoot_def)
      from sf c have "sepfree c" by simp
      then have "splitPath c = [c]" by (rule splitPath_nosep)
      with False c Nil ne fx show ?thesis
        by (simp add: render_def components_def)
    qed
  next
    case (Cons d ds)
    with c have l: "length cs \<ge> 2" by simp
    have r: "render cs = joinWith sep cs"
      using c Cons by (simp add: render_def)
    have "splitPath (joinWith sep cs) = cs"
      using splitPath_joinWith [of sep cs] sf c by simp
    with r fx joinWith_nonempty [OF l] show ?thesis
      by (simp add: components_def)
  qed
qed

lemma components_Clean: "components (Clean s) = components s"
  unfolding Clean_def
  by (rule components_render [OF components_fix components_sepfree])

lemma components_Join2:
  assumes "a \<noteq> []" "n \<noteq> []"
  shows "components (filepath_Join [a, n]) = cleanComponents (splitPath a @ splitPath n)"
proof -
  have j: "filepath_Join [a, n] = Clean (a @ sep # n)"
    using assms by (simp add: filepath_Join_def)
  have "components (a @ sep # n) = cleanComponents (splitPath a @ splitPath n)"
    by (simp add: components_def splitPath_append_sep)
  with j show ?thesis by (simp add: components_Clean)
qed

lemma cleanComponents_append_local:
  assumes "xs \<noteq> []" "''..'' \<notin> set ys"
  shows "cleanComponents (xs @ ys) = cleanComponents xs @ filter plain ys"
proof -
  obtain r rest where xs: "xs = r # rest" using assms(1) by (cases xs) auto
  show ?thesis
  proof (cases "isRoot r")
    case True
    then show ?thesis
      using xs assms(2) cleanAcc_append [of True "[]" rest ys]
      by (simp add: cleanComponents_def cleanAcc_nodotdot)
  next
    case False
    then show ?thesis
      using xs assms(2) cleanAcc_append [of False "[]" xs ys]
      by (simp add: cleanComponents_def cleanAcc_nodotdot)
  qed
qed

lemma lies_under_Join_local:
  assumes "''..'' \<notin> set (splitPath n)"
  shows "lies_under a (filepath_Join [a, n])"
proof (cases "a = []")
  case True
  then show ?thesis by (simp add: lies_under_def components_def)
next
  case False
  show ?thesis
  proof (cases "n = []")
    case True
    with False have "filepath_Join [a, n] = Clean a"
      by (simp add: filepath_Join_def)
    then show ?thesis by (simp add: lies_under_def components_Clean)
  next
    case nn: False
    have "components (filepath_Join [a, n]) = components a @ filter plain (splitPath n)"
      using components_Join2 [OF False nn]
        cleanComponents_append_local [OF _ assms, of "splitPath a"] False
      by (simp add: components_def)
    then show ?thesis by (simp add: lies_under_def)
  qed
qed

section \<open>Lemmas about the lines of the version file\<close>


lemma lines_acc_step:
  "lines_acc cur s =
     (if newline \<in> set s
      then (cur @ takeWhile (\<lambda>c. c \<noteq> newline) s @ [newline])
             # lines_acc [] (tl (dropWhile (\<lambda>c. c \<noteq> newline) s))
      else [])"
  by (induction s arbitrary: cur) auto

lemma complete_lines_step:
  "complete_lines s =
     (if newline \<in> set s
      then (takeWhile (\<lambda>c. c \<noteq> newline) s @ [newline])
             # complete_lines (tl (dropWhile (\<lambda>c. c \<noteq> newline) s))
      else [])"
  unfolding complete_lines_def using lines_acc_step [of "[]" s] by simp

lemma slice_marker:
  assumes "HasPrefix (l @ [newline]) version_prefix"
  shows "slice (l @ [newline]) (int (length version_prefix)) (int (length (l @ [newline])) - 1)
         = Some (butlast (drop (length version_prefix) (l @ [newline])))"
proof -
  have "length version_prefix \<le> length l"
  proof (rule ccontr)
    assume "\<not> length version_prefix \<le> length l"
    with assms have "l @ [newline] = version_prefix"
      by (auto simp: HasPrefix_def version_prefix_def)
    then have "last version_prefix = newline" by (metis last_snoc)
    then show False by (simp add: version_prefix_def newline_def)
  qed
  then show ?thesis
    by (simp add: slice_def butlast_conv_take)
qed

lemma loop_lines:
  "getLocalVersion_loop w e (buf, fin) =
     (case find is_marker (complete_lines buf) of
        Some line \<Rightarrow> parse_version w e line
      | None \<Rightarrow>
          if fin = EOF then (e, Some (Errorf (''local version not found at '' @ tocFile e)))
          else (e, Some (Wrap fin (''cannot read lines from '' @ tocFile e))))"
proof (induction buf rule: length_induct)
  case (1 buf)
  show ?case
  proof (cases "newline \<in> set buf")
    case False
    then show ?thesis
      by (subst getLocalVersion_loop.simps) (simp add: ReadString_def complete_lines_step)
  next
    case True
    let ?l = "takeWhile (\<lambda>c. c \<noteq> newline) buf"
    let ?r = "tl (dropWhile (\<lambda>c. c \<noteq> newline) buf)"
    have rs: "ReadString newline (buf, fin) = (?l @ [newline], None, (?r, fin))"
      using True by (simp add: ReadString_def)
    have cl: "complete_lines buf = (?l @ [newline]) # complete_lines ?r"
      using True complete_lines_step [of buf] by simp
    have len: "length ?r < length buf"
      using True length_dropWhile_le [of "\<lambda>c. c \<noteq> newline" buf]
      by (cases "dropWhile (\<lambda>c. c \<noteq> newline) buf") auto
    show ?thesis
    proof (cases "is_marker (?l @ [newline])")
      case True
      then have hp: "HasPrefix (?l @ [newline]) version_prefix"
        by (simp add: is_marker_def)
      from True hp show ?thesis
        apply (subst getLocalVersion_loop.simps)
        apply (simp only: rs cl)
        apply (simp add: slice_marker parse_version_def Let_def del: length_append)
        done
    next
      case False
      then have hp: "\<not> HasPrefix (?l @ [newline]) version_prefix"
        by (simp add: is_marker_def)
      from False hp "1.IH" len show ?thesis
        apply (subst getLocalVersion_loop.simps)
        apply (simp only: rs cl)
        apply simp
        done
    qed
  qed
qed

text \<open>The slice expression of the loop never panics.\<close>

lemma getLocalVersion_loop_no_panic:
  "snd (getLocalVersion_loop w e (buf, fin)) \<noteq> Some (Panic m)"
  by (simp add: loop_lines parse_version_def Let_def split: option.splits prod.splits)

lemma getLocalVersion_lines:
  assumes "os_Open w (tocFile e) = Inr (buf, fin)"
  shows "getLocalVersion w e =
     (case find is_marker (complete_lines buf) of
        Some line \<Rightarrow>
          (fst (parse_version w e line), snd (parse_version w e line),
           [EvOpen (tocFile e), EvClose (tocFile e)])
      | None \<Rightarrow>
          (e, Some (if fin = EOF then Errorf (''local version not found at '' @ tocFile e)
                    else Wrap fin (''cannot read lines from '' @ tocFile e)),
           [EvOpen (tocFile e), EvClose (tocFile e)]))"
  using assms by (simp add: getLocalVersion_def loop_lines split: option.splits prod.splits)

lemma lines_acc_fragment:
  "newline \<notin> set frag \<Longrightarrow> lines_acc cur (body @ frag) = lines_acc cur body"
proof (induction body arbitrary: cur)
  case Nil
  then show ?case using lines_acc_step [of cur frag] by simp
next
  case (Cons c body)
  then show ?case by simp
qed

lemma complete_lines_fragment:
  "newline \<notin> set frag \<Longrightarrow> complete_lines (body @ frag) = complete_lines body"
  by (simp add: complete_lines_def lines_acc_fragment)

section \<open>Lemmas about the events of a run\<close>

lemma stage_entries_Nil [simp]: "stage_entries [] = []"
  by (simp add: stage_entries_def)

lemma stage_entries_Cons [simp]:
  "stage_entries (ev # t) =
     (case stage_entry ev of None \<Rightarrow> stage_entries t | Some s \<Rightarrow> s # stage_entries t)"
  unfolding stage_entries_def by simp

lemma stage_entries_append [simp]:
  "stage_entries (t @ u) = stage_entries t @ stage_entries u"
  by (induction t) (auto split: option.splits)

lemma stage_entries_none:
  "(\<And>ev. ev \<in> set t \<Longrightarrow> stage_entry ev = None) \<Longrightarrow> stage_entries t = []"
  by (induction t) auto

lemma removeOlder_events:
  "ev \<in> set (snd (removeOlder w a ds)) \<Longrightarrow> is_remove ev"
  by (induction ds) (auto simp: Let_def split: option.splits prod.splits)

lemma extractFiles_events:
  "ev \<in> set (snd (extractFiles w a fs)) \<Longrightarrow> is_write ev \<or> is_close ev"
  by (induction fs) (auto simp: Let_def split: option.splits prod.splits sum.splits if_splits)

lemma quiet_event:
  "is_remove ev \<or> is_write ev \<or> is_close ev \<Longrightarrow>
   stage_entry ev = None \<and> \<not> is_fatal ev \<and> \<not> is_download ev"
  by (cases ev) auto

lemma quiet_trace:
  assumes "\<And>ev. ev \<in> set t \<Longrightarrow> is_remove ev \<or> is_write ev \<or> is_close ev"
  shows "stage_entries t = [] \<and> filter is_fatal t = [] \<and> filter is_download t = []"
  using assms quiet_event
  by (auto intro!: stage_entries_none simp: filter_empty_conv)

lemma removeOlder_quiet:
  assumes "removeOlder w a ds = (r, t)"
  shows "stage_entries t = [] \<and> filter is_fatal t = [] \<and> filter is_download t = []"
proof (rule quiet_trace)
  fix ev assume "ev \<in> set t"
  with assms have "ev \<in> set (snd (removeOlder w a ds))" by simp
  then show "is_remove ev \<or> is_write ev \<or> is_close ev"
    using removeOlder_events by blast
qed

lemma extractFiles_quiet:
  assumes "extractFiles w a fs = (r, t)"
  shows "stage_entries t = [] \<and> filter is_fatal t = [] \<and> filter is_download t = []"
proof (rule quiet_trace)
  fix ev assume "ev \<in> set t"
  with assms have "ev \<in> set (snd (extractFiles w a fs))" by simp
  then show "is_remove ev \<or> is_write ev \<or> is_close ev"
    using extractFiles_events by blast
qed

text \<open>The shape of the trace of downloadAndExtract.\<close>

lemma downloadAndExtract_shape:
  "\<exists>ms. snd (downloadAndExtract w e) = EvGet (downloadURL e) # ms
        \<and> stage_entries ms = [] \<and> filter is_fatal ms = [] \<and> filter is_download ms = []"
  by (auto simp: downloadAndExtract_def dest!: removeOlder_quiet extractFiles_quiet
      split: sum.splits option.splits prod.splits)

lemma downloadAndExtract_entries:
  "downloadAndExtract w e = (r, t) \<Longrightarrow> stage_entries t = [FetchExtract]"
  using downloadAndExtract_shape [of w e] by auto

lemma downloadAndExtract_fatal:
  "downloadAndExtract w e = (r, t) \<Longrightarrow> filter is_fatal t = []"
  using downloadAndExtract_shape [of w e] by auto

lemma downloadAndExtract_download:
  "downloadAndExtract w e = (r, t) \<Longrightarrow> filter is_download t = [EvGet (downloadURL e)]"
  using downloadAndExtract_shape [of w e] by auto

lemma init_cases:
  assumes "init w p e = (e', r, t)"
  shows "(t = [EvReadFile p] \<and> r \<noteq> None)
       \<or> (t = [EvReadFile p, EvOpenKey wowKey] \<and> r \<noteq> None)
       \<or> t = [EvReadFile p, EvOpenKey wowKey, EvGetStringValue wowKey ''InstallPath'',
               EvClose wowKey]"
  using assms
  by (auto simp: init_def Let_def split: sum.splits option.splits prod.splits)

lemma init_ok_trace:
  assumes "init w p e = (e', None, t)"
  shows "t = [EvReadFile p, EvOpenKey wowKey, EvGetStringValue wowKey ''InstallPath'',
              EvClose wowKey]"
  using init_cases [OF assms] by auto

lemma getLocalVersion_trace:
  assumes "getLocalVersion w e = (e', r, t)"
  shows "(t = [EvOpen (tocFile e)] \<and> r \<noteq> None) \<or> t = [EvOpen (tocFile e), EvClose (tocFile e)]"
  using assms
  by (auto simp: getLocalVersion_def split: sum.splits prod.splits)

lemma setRemote_cases:
  assumes "setRemoteVersionNDownloadURL w e = (e', r, t)"
  shows "(t = [] \<and> r \<noteq> None) \<or> (t = [EvDo (Page e)] \<and> r \<noteq> None)
       \<or> t = [EvDo (Page e), EvClose (Page e)]"
  using assms
  by (auto simp: setRemoteVersionNDownloadURL_def split: sum.splits option.splits prod.splits)

lemma setRemote_ok_trace:
  assumes "setRemoteVersionNDownloadURL w e = (e', None, t)"
  shows "t = [EvDo (Page e), EvClose (Page e)]"
  using setRemote_cases [OF assms] by auto

lemma finish_quiet [simp]:
  "stage_entries (finish q) = []" "filter is_fatal (finish q) = []"
  "filter is_download (finish q) = []" "filter is_mutation (finish q) = []"
  by (simp_all add: finish_def is_mutation_def)

lemma main_compare_entries:
  "stage_entries (fst (main_compare w q c)) =
     (if float_gt (remoteVersion c) (localVersion c) then [Compare, FetchExtract] else [Compare])"
  by (auto simp: main_compare_def dest: downloadAndExtract_entries split: prod.splits option.splits)

lemma float_le_not_gt: "float_le a b \<Longrightarrow> \<not> float_gt a b"
  by (cases a; cases b) auto

lemma main_compare_result:
  assumes "main_compare w q c = (t, code)"
  shows "stage_entries t =
           (if float_gt (remoteVersion c) (localVersion c) then [Compare, FetchExtract]
            else [Compare])"
    and "code = 0 \<or> code = 1"
  using assms
  by (auto simp: main_compare_def dest: downloadAndExtract_entries
      split: prod.splits option.splits if_splits)

lemma fatal_filter_simps:
  "init w p e = (e', r, t) \<Longrightarrow> filter is_fatal t = []"
  "getLocalVersion w e = (e', r, t) \<Longrightarrow> filter is_fatal t = []"
  "setRemoteVersionNDownloadURL w e = (e', r, t) \<Longrightarrow> filter is_fatal t = []"
  by (auto dest!: init_cases getLocalVersion_trace setRemote_cases)

lemma triple_eq: "fst (snd x) = r \<Longrightarrow> x = (fst x, r, snd (snd x))"
  by (cases x) auto

lemma pair_eq: "fst x = r \<Longrightarrow> x = (r, snd x)"
  by (cases x) auto

lemma removeOlder_shape:
  assumes "removeOlder w a ds = (r, t)"
  shows "prefix t (map (\<lambda>d. EvRemoveAll (filepath_Join [a, d])) ds)
       \<and> (r = None \<longrightarrow> t = map (\<lambda>d. EvRemoveAll (filepath_Join [a, d])) ds
            \<and> (\<forall>d \<in> set ds. os_RemoveAll w (filepath_Join [a, d]) = None))"
  using assms
  by (induction ds arbitrary: r t)
     (auto simp: Let_def split: option.splits prod.splits)

lemma extractFiles_targets:
  assumes "extractFiles w a fs = (r, t)" and "ev \<in> set t"
  shows "(is_write ev \<and> (\<exists>f \<in> set fs. target ev = filepath_Join [a, Name f])) \<or> is_close ev"
  using assms
  by (induction fs arbitrary: r t)
     (auto simp: Let_def split: option.splits prod.splits sum.splits if_splits)

lemma is_close_not_mutation: "is_close ev \<Longrightarrow> \<not> is_remove ev \<and> \<not> is_write ev"
  by (cases ev) auto

lemma is_write_not_remove: "is_write ev \<Longrightarrow> \<not> is_remove ev"
  by (cases ev) auto

section \<open>Lemmas about the older revisions\<close>



lemma behaviour_simps [simp]:
  "behaviour [] = []"
  "behaviour (t @ u) = behaviour t @ behaviour u"
  "behaviour (ev # t) = (if is_mutation ev \<or> is_outcome ev then ev # behaviour t else behaviour t)"
  by (simp_all add: behaviour_def)

lemma behaviour_finish [simp]: "behaviour (finish q) = []"
  by (simp add: finish_def is_mutation_def)

lemma filter_mutation_close [simp]: "\<not> is_mutation (EvClose p)" "\<not> is_mutation (EvGet p)"
  "\<not> is_outcome (EvClose p)" "\<not> is_outcome (EvGet p)"
  by (simp_all add: is_mutation_def)




section \<open>Lemmas about the decoder\<close>

lemma Decode_needs_value:
  "\<not> begins_with_value rd \<Longrightarrow> \<exists>err. Decode um rd = Inl err"
  by (cases rd) (auto simp: begins_with_value_def Decode_def split: scan_result.splits)

lemma valid_begins: "valid_json buf \<Longrightarrow> begins_with_value (buf, EOF)"
  by (auto simp: valid_json_def begins_with_value_def split: scan_result.splits)

section \<open>Facts about the example installation\<close>

lemma demo_addon_join: "filepath_Join [demo_install, ''Interface'', ''AddOns''] = demo_addon"
  by code_simp

lemma demo_tocFile: "tocFile demo_conf = demo_toc"
  by code_simp

lemma demo_open: "os_Open demo_world demo_toc = Inr (demo_toc_text, EOF)"
  by (simp add: demo_world_def)

lemma demo_marker:
  "find is_marker (complete_lines demo_toc_text) = Some (''## Version: 13.52'' @ [CHR 0x0D, newline])"
  by code_simp

lemma demo_parse:
  "strconv_ParseFloat demo_world
     (strings_TrimSpace demo_world
        (butlast (drop (length version_prefix) (''## Version: 13.52'' @ [CHR 0x0D, newline]))))
   = (Finite 13.52, None)"
  by code_simp

section \<open>The claims\<close>

text \<open>
  C1. In every run in which both versions are obtained (the three stages before the
  comparison return no error), \<^verbatim>\<open>downloadAndExtract\<close> is invoked if and only if
  the remote version is greater than the local version as \<^verbatim>\<open>float64\<close> values
  compare: the download request, the first thing \<^verbatim>\<open>downloadAndExtract\<close> does,
  is among the events exactly then, and then all the events of
  \<^verbatim>\<open>downloadAndExtract\<close> follow the line that announces the upgrade. When the
  remote version is not greater, in particular when it is less than or equal to the local
  version, nothing is downloaded, no call changes the file system, "Nothing to do" is logged
  and the process exits with status 0.
\<close>

theorem download_iff_remote_greater:
  assumes "init w ''config.json'' conf0 = (c1, None, t1)"
    and "getLocalVersion w c1 = (c2, None, t2)"
    and "setRemoteVersionNDownloadURL w c2 = (c3, None, t3)"
  shows "(list_ex is_download (fst (main w q))
            \<longleftrightarrow> float_gt (remoteVersion c3) (localVersion c3))
     \<and> (float_gt (remoteVersion c3) (localVersion c3) \<longrightarrow>
          (\<exists>rest. fst (main w q)
             = t1 @ t2 @ t3 @ LogUpgrading (localVersion c3) (remoteVersion c3)
                 # snd (downloadAndExtract w c3) @ rest))
     \<and> (\<not> float_gt (remoteVersion c3) (localVersion c3) \<longrightarrow>
          \<not> list_ex is_download (fst (main w q))
          \<and> \<not> list_ex is_mutation (fst (main w q))
          \<and> fst (main w q) = t1 @ t2 @ t3 @ LogNothingToDo # finish q
          \<and> snd (main w q) = 0)
     \<and> (float_le (remoteVersion c3) (localVersion c3) \<longrightarrow>
          \<not> float_gt (remoteVersion c3) (localVersion c3))"
proof -
  have m: "main w q = (t1 @ t2 @ t3 @ fst (main_compare w q c3), snd (main_compare w q c3))"
    using assms by (simp add: main_def split: prod.splits)
  have t: "t1 = [EvReadFile ''config.json'', EvOpenKey wowKey,
                 EvGetStringValue wowKey ''InstallPath'', EvClose wowKey]"
    "t2 = [EvOpen (tocFile c1), EvClose (tocFile c1)]"
    "t3 = [EvDo (Page c2), EvClose (Page c2)]"
    using assms
    by (auto dest!: init_ok_trace getLocalVersion_trace setRemote_ok_trace)
  show ?thesis
  proof (cases "float_gt (remoteVersion c3) (localVersion c3)")
    case True
    obtain r t4 where d: "downloadAndExtract w c3 = (r, t4)"
      by (cases "downloadAndExtract w c3")
    from downloadAndExtract_shape [of w c3] d obtain ms where
      ms: "t4 = EvGet (downloadURL c3) # ms" by auto
    from True d ms m t show ?thesis
      by (cases r) (auto simp: main_compare_def float_le_not_gt)
  next
    case False
    with m t show ?thesis
      by (auto simp: main_compare_def finish_def is_mutation_def float_le_not_gt)
  qed
qed

theorem download_iff_remote_greater_witness:
  "list_ex is_download (fst (main demo_world True))
   \<and> \<not> list_ex is_download (fst (main uptodate_world True))
   \<and> \<not> list_ex is_mutation (fst (main uptodate_world True))
   \<and> list_ex (\<lambda>ev. ev = LogNothingToDo) (fst (main uptodate_world True))
   \<and> snd (main uptodate_world True) = 0"
proof -
  let ?i = "init demo_world ''config.json'' conf0"
  let ?g = "getLocalVersion demo_world (fst ?i)"
  let ?r = "setRemoteVersionNDownloadURL demo_world (fst ?g)"
  have "fst (snd ?i) = None" by code_simp
  then have i: "?i = (fst ?i, None, snd (snd ?i))" by (rule triple_eq)
  have "fst (snd ?g) = None" by code_simp
  then have g: "?g = (fst ?g, None, snd (snd ?g))" by (rule triple_eq)
  have "fst (snd ?r) = None" by code_simp
  then have r: "?r = (fst ?r, None, snd (snd ?r))" by (rule triple_eq)
  have gt: "float_gt (remoteVersion (fst ?r)) (localVersion (fst ?r))" by code_simp
  note a = download_iff_remote_greater [OF i g r, of True]
  let ?i' = "init uptodate_world ''config.json'' conf0"
  let ?g' = "getLocalVersion uptodate_world (fst ?i')"
  let ?r' = "setRemoteVersionNDownloadURL uptodate_world (fst ?g')"
  have "fst (snd ?i') = None" by code_simp
  then have i': "?i' = (fst ?i', None, snd (snd ?i'))" by (rule triple_eq)
  have "fst (snd ?g') = None" by code_simp
  then have g': "?g' = (fst ?g', None, snd (snd ?g'))" by (rule triple_eq)
  have "fst (snd ?r') = None" by code_simp
  then have r': "?r' = (fst ?r', None, snd (snd ?r'))" by (rule triple_eq)
  have le: "float_le (remoteVersion (fst ?r')) (localVersion (fst ?r'))" by code_simp
  note b = download_iff_remote_greater [OF i' g' r', of True]
  from b le have ngt: "\<not> float_gt (remoteVersion (fst ?r')) (localVersion (fst ?r'))"
    by blast
  with b have n: "fst (main uptodate_world True)
      = snd (snd ?i') @ snd (snd ?g') @ snd (snd ?r') @ LogNothingToDo # finish True"
    by blast
  have l: "list_ex (\<lambda>ev. ev = LogNothingToDo) (fst (main uptodate_world True))"
    unfolding n by (simp add: list_ex_iff)
  from a gt b ngt l show ?thesis by blast
qed

text \<open>
  C2, as the claim states it, fails: an archive entry whose name has a
  \<^verbatim>\<open>..\<close> component is written where \<^verbatim>\<open>filepath.Join\<close> resolves
  the name, which can be outside the install path (\<^verbatim>\<open>archive/zip\<close> hands
  such names to the program as they are, and the program checks no name). In the example the entry
  \<^verbatim>\<open>../evil.txt\<close> is created in \<^verbatim>\<open>Interface\<close>, beside
  \<^verbatim>\<open>AddOns\<close>.
\<close>

theorem zip_entry_escapes_install_path:
  "EvCreate evil_path \<in> set (snd (downloadAndExtract slip_world demo_conf))
   \<and> is_write (EvCreate evil_path)
   \<and> \<not> lies_under (addon demo_conf) (target (EvCreate evil_path))"
  by code_simp

text \<open>
  C2, amended. Whenever \<^verbatim>\<open>downloadAndExtract\<close> has opened the archive, its
  calls are, in order: the download; the removals of the configured directories, each
  joined to the install path, in their order and stopping at the first that fails; then, and
  only when every configured directory has been removed with success, the writes, each aimed
  at the install path joined with the name of an entry of the archive; no removal follows a
  write. When no configured directory and no entry name has a \<^verbatim>\<open>..\<close>
  component, every path removed or written is the install path or lies under it. A call
  counts as aimed at the path it is given.
\<close>

theorem downloadAndExtract_removes_then_writes:
  assumes "http_Get w (downloadURL e) = Inr resp"
    and "ReadAll (Body resp) = (bytes, None)"
    and "zip_NewReader w bytes (ContentLength resp) = Inr files"
  shows "\<exists>rm ws.
      snd (downloadAndExtract w e)
        = EvGet (downloadURL e) # rm @ ws @ [EvClose (downloadURL e)]
      \<and> prefix rm (map (\<lambda>d. EvRemoveAll (filepath_Join [addon e, d])) (Directories e))
      \<and> (ws \<noteq> [] \<longrightarrow>
            rm = map (\<lambda>d. EvRemoveAll (filepath_Join [addon e, d])) (Directories e)
            \<and> (\<forall>d \<in> set (Directories e).
                  os_RemoveAll w (filepath_Join [addon e, d]) = None))
      \<and> (\<forall>ev \<in> set ws. \<not> is_remove ev)
      \<and> (\<forall>ev \<in> set ws. is_write ev \<longrightarrow>
            (\<exists>f \<in> set files. target ev = filepath_Join [addon e, Name f]))
      \<and> ((\<forall>d \<in> set (Directories e). local_name d) \<and> (\<forall>f \<in> set files. local_name (Name f))
          \<longrightarrow> (\<forall>ev \<in> set (rm @ ws). is_mutation ev \<longrightarrow> lies_under (addon e) (target ev)))"
proof -
  let ?all = "map (\<lambda>d. EvRemoveAll (filepath_Join [addon e, d])) (Directories e)"
  obtain r1 t1 where ro: "removeOlder w (addon e) (Directories e) = (r1, t1)"
    by (cases "removeOlder w (addon e) (Directories e)")
  obtain r2 t2 where ex: "extractFiles w (addon e) files = (r2, t2)"
    by (cases "extractFiles w (addon e) files")
  note sh = removeOlder_shape [OF ro]
  define ws where "ws = (if r1 = None then t2 else [])"
  have tr: "snd (downloadAndExtract w e)
        = EvGet (downloadURL e) # t1 @ ws @ [EvClose (downloadURL e)]"
    using assms ro ex by (cases r1) (simp_all add: downloadAndExtract_def ws_def)
  have wsev: "\<And>ev. ev \<in> set ws \<Longrightarrow>
      (is_write ev \<and> (\<exists>f \<in> set files. target ev = filepath_Join [addon e, Name f]))
      \<or> is_close ev"
    using extractFiles_targets [OF ex] by (auto simp: ws_def split: if_splits)
  have rmev: "\<And>ev. ev \<in> set t1 \<Longrightarrow>
      \<exists>d \<in> set (Directories e). ev = EvRemoveAll (filepath_Join [addon e, d])"
  proof -
    fix ev assume "ev \<in> set t1"
    with sh have "ev \<in> set ?all" using set_mono_prefix by blast
    then show "\<exists>d \<in> set (Directories e). ev = EvRemoveAll (filepath_Join [addon e, d])"
      by auto
  qed
  have p1: "prefix t1 ?all" using sh by simp
  have p2: "ws \<noteq> [] \<longrightarrow> t1 = ?all
      \<and> (\<forall>d \<in> set (Directories e). os_RemoveAll w (filepath_Join [addon e, d]) = None)"
    using sh by (auto simp: ws_def split: if_splits)
  have p3: "\<forall>ev \<in> set ws. \<not> is_remove ev"
    using wsev is_close_not_mutation is_write_not_remove by blast
  have p4: "\<forall>ev \<in> set ws. is_write ev \<longrightarrow>
      (\<exists>f \<in> set files. target ev = filepath_Join [addon e, Name f])"
    using wsev is_close_not_mutation by blast
  have p5: "(\<forall>d \<in> set (Directories e). local_name d) \<and> (\<forall>f \<in> set files. local_name (Name f))
      \<longrightarrow> (\<forall>ev \<in> set (t1 @ ws). is_mutation ev \<longrightarrow> lies_under (addon e) (target ev))"
  proof (intro impI ballI)
    fix ev
    assume loc: "(\<forall>d \<in> set (Directories e). local_name d)
        \<and> (\<forall>f \<in> set files. local_name (Name f))"
      and mem: "ev \<in> set (t1 @ ws)" and mu: "is_mutation ev"
    from mem consider "ev \<in> set t1" | "ev \<in> set ws" by auto
    then show "lies_under (addon e) (target ev)"
    proof cases
      case 1
      with rmev obtain d where "d \<in> set (Directories e)"
        "ev = EvRemoveAll (filepath_Join [addon e, d])" by blast
      with loc show ?thesis
        by (simp add: local_name_def lies_under_Join_local)
    next
      case 2
      with wsev mu is_close_not_mutation obtain f where "f \<in> set files"
        "target ev = filepath_Join [addon e, Name f]"
        by (auto simp: is_mutation_def)
      with loc show ?thesis
        by (simp add: local_name_def lies_under_Join_local)
    qed
  qed
  from tr p1 p2 p3 p4 p5 show ?thesis by blast
qed

theorem downloadAndExtract_removes_then_writes_witness:
  "\<exists>ws. snd (downloadAndExtract demo_world demo_conf)
      = EvGet demo_url
          # [EvRemoveAll (filepath_Join [demo_addon, ''ElvUI'']),
             EvRemoveAll (filepath_Join [demo_addon, ''ElvUI_Options''])]
          @ ws @ [EvClose demo_url]
     \<and> list_all (\<lambda>ev. \<not> is_remove ev) ws
     \<and> list_all (\<lambda>ev. lies_under demo_addon (target ev)) (filter is_mutation ws)"
proof -
  have a: "http_Get demo_world (downloadURL demo_conf)
             = Inr \<lparr>Body = (''PK'', EOF), ContentLength = 2\<rparr>"
    by (simp add: demo_world_def demo_conf_def)
  have b: "ReadAll (Body \<lparr>Body = (''PK'', EOF), ContentLength = 2\<rparr>) = (''PK'', None)"
    by (simp add: ReadAll_def)
  have c: "zip_NewReader demo_world ''PK'' (ContentLength \<lparr>Body = (''PK'', EOF),
             ContentLength = 2\<rparr>) = Inr demo_files"
    by (simp add: demo_world_def)
  have l: "(\<forall>d \<in> set (Directories demo_conf). local_name d)
      \<and> (\<forall>f \<in> set demo_files. local_name (Name f))"
    by code_simp
  have m: "list_ex is_write (snd (downloadAndExtract demo_world demo_conf))"
    by code_simp
  from downloadAndExtract_removes_then_writes [OF a b c] obtain rm ws where
    t: "snd (downloadAndExtract demo_world demo_conf)
          = EvGet (downloadURL demo_conf) # rm @ ws @ [EvClose (downloadURL demo_conf)]"
    and p: "prefix rm (map (\<lambda>d. EvRemoveAll (filepath_Join [addon demo_conf, d]))
              (Directories demo_conf))"
    and f: "ws \<noteq> [] \<longrightarrow>
        rm = map (\<lambda>d. EvRemoveAll (filepath_Join [addon demo_conf, d])) (Directories demo_conf)"
    and n: "\<forall>ev \<in> set ws. \<not> is_remove ev"
    and u: "(\<forall>d \<in> set (Directories demo_conf). local_name d)
        \<and> (\<forall>f \<in> set demo_files. local_name (Name f))
        \<longrightarrow> (\<forall>ev \<in> set (rm @ ws). is_mutation ev \<longrightarrow> lies_under (addon demo_conf) (target ev))"
    by blast
  have rmr: "\<forall>ev \<in> set rm. is_remove ev"
    using p set_mono_prefix by fastforce
  have "ws \<noteq> []"
  proof
    assume "ws = []"
    with t m rmr show False
      by (auto simp: list_ex_iff dest: is_write_not_remove)
  qed
  with f have rm: "rm = [EvRemoveAll (filepath_Join [demo_addon, ''ElvUI'']),
      EvRemoveAll (filepath_Join [demo_addon, ''ElvUI_Options''])]"
    by (simp add: demo_conf_def demo_dirs_def)
  from u l have "\<forall>ev \<in> set ws. is_mutation ev \<longrightarrow> lies_under demo_addon (target ev)"
    by (simp add: demo_conf_def)
  with t rm n show ?thesis
    by (auto simp: demo_conf_def list_all_iff)
qed

text \<open>
  C3. A stage that returns an error makes the process log the error and exit with status 1
  at once, and no later stage runs; nothing is retried. Stage by stage: the configuration
  load (reading or decoding fails), the resolution of the install path (the key or the value
  is missing), the reading of the local version, the fetching of the remote version, and the
  download and extraction. In each case the fatal line is the last event and the only fatal
  line, and the stages entered are those up to the failing one.
\<close>

theorem first_error_is_fatal:
  "((ioutil_ReadFile w ''config.json'' = Inl err0
       \<or> (ioutil_ReadFile w ''config.json'' = Inr raw
           \<and> fst (json_Unmarshal w raw (Page conf0, Directories conf0)) = Some err0))
      \<longrightarrow> snd (main w q) = 1
          \<and> (\<exists>msg. fst (main w q) = [EvReadFile ''config.json'', LogFatal (Wrap err0 msg)]))
   \<and> (ioutil_ReadFile w ''config.json'' = Inr raw
       \<and> fst (json_Unmarshal w raw (Page conf0, Directories conf0)) = None
       \<and> (registry_OpenKey w wowKey = Some err0
           \<or> (registry_OpenKey w wowKey = None
               \<and> registry_GetStringValue w wowKey ''InstallPath'' = Inl err0))
      \<longrightarrow> snd (main w q) = 1
          \<and> stage_entries (fst (main w q)) = [ConfigLoad, InstallPath]
          \<and> filter is_fatal (fst (main w q))
              = [LogFatal (Wrap err0 ''cannot find WoW install directory'')]
          \<and> last (fst (main w q)) = LogFatal (Wrap err0 ''cannot find WoW install directory''))
   \<and> (init w ''config.json'' conf0 = (c1, None, t1)
       \<and> getLocalVersion w c1 = (c2, Some err, t2)
      \<longrightarrow> main w q = (t1 @ t2 @ [LogFatal err], 1)
          \<and> stage_entries (fst (main w q)) = [ConfigLoad, InstallPath, LocalVersion]
          \<and> filter is_fatal (fst (main w q)) = [LogFatal err])
   \<and> (init w ''config.json'' conf0 = (c1, None, t1)
       \<and> getLocalVersion w c1 = (c2, None, t2)
       \<and> setRemoteVersionNDownloadURL w c2 = (c3, Some err, t3)
      \<longrightarrow> main w q = (t1 @ t2 @ t3 @ [LogFatal err], 1)
          \<and> prefix (stage_entries (fst (main w q)))
               [ConfigLoad, InstallPath, LocalVersion, RemoteVersion]
          \<and> filter is_fatal (fst (main w q)) = [LogFatal err])
   \<and> (init w ''config.json'' conf0 = (c1, None, t1)
       \<and> getLocalVersion w c1 = (c2, None, t2)
       \<and> setRemoteVersionNDownloadURL w c2 = (c3, None, t3)
       \<and> float_gt (remoteVersion c3) (localVersion c3)
       \<and> downloadAndExtract w c3 = (Some err, t4)
      \<longrightarrow> main w q
            = (t1 @ t2 @ t3 @ LogUpgrading (localVersion c3) (remoteVersion c3) # t4
                 @ [LogFatal err], 1)
          \<and> stage_entries (fst (main w q)) = pipeline
          \<and> filter is_fatal (fst (main w q)) = [LogFatal err])"
proof (intro conjI impI)
  assume "ioutil_ReadFile w ''config.json'' = Inl err0
       \<or> (ioutil_ReadFile w ''config.json'' = Inr raw
           \<and> fst (json_Unmarshal w raw (Page conf0, Directories conf0)) = Some err0)"
  then show "snd (main w q) = 1"
    and "\<exists>msg. fst (main w q) = [EvReadFile ''config.json'', LogFatal (Wrap err0 msg)]"
    by (auto simp: main_def init_def split: prod.splits)
next
  assume a: "ioutil_ReadFile w ''config.json'' = Inr raw
       \<and> fst (json_Unmarshal w raw (Page conf0, Directories conf0)) = None
       \<and> (registry_OpenKey w wowKey = Some err0
           \<or> (registry_OpenKey w wowKey = None
               \<and> registry_GetStringValue w wowKey ''InstallPath'' = Inl err0))"
  then show "snd (main w q) = 1"
    and "stage_entries (fst (main w q)) = [ConfigLoad, InstallPath]"
    and "filter is_fatal (fst (main w q))
              = [LogFatal (Wrap err0 ''cannot find WoW install directory'')]"
    and "last (fst (main w q)) = LogFatal (Wrap err0 ''cannot find WoW install directory'')"
    by (auto simp: main_def init_def Let_def split: prod.splits)
next
  assume a: "init w ''config.json'' conf0 = (c1, None, t1)
       \<and> getLocalVersion w c1 = (c2, Some err, t2)"
  then show "main w q = (t1 @ t2 @ [LogFatal err], 1)"
    by (simp add: main_def)
  with a show "stage_entries (fst (main w q)) = [ConfigLoad, InstallPath, LocalVersion]"
    and "filter is_fatal (fst (main w q)) = [LogFatal err]"
    by (auto dest!: init_ok_trace getLocalVersion_trace)
next
  assume a: "init w ''config.json'' conf0 = (c1, None, t1)
       \<and> getLocalVersion w c1 = (c2, None, t2)
       \<and> setRemoteVersionNDownloadURL w c2 = (c3, Some err, t3)"
  then show "main w q = (t1 @ t2 @ t3 @ [LogFatal err], 1)"
    by (simp add: main_def)
  with a show "prefix (stage_entries (fst (main w q)))
               [ConfigLoad, InstallPath, LocalVersion, RemoteVersion]"
    and "filter is_fatal (fst (main w q)) = [LogFatal err]"
    by (auto dest!: init_ok_trace getLocalVersion_trace setRemote_cases)
next
  assume a: "init w ''config.json'' conf0 = (c1, None, t1)
       \<and> getLocalVersion w c1 = (c2, None, t2)
       \<and> setRemoteVersionNDownloadURL w c2 = (c3, None, t3)
       \<and> float_gt (remoteVersion c3) (localVersion c3)
       \<and> downloadAndExtract w c3 = (Some err, t4)"
  then show m: "main w q
            = (t1 @ t2 @ t3 @ LogUpgrading (localVersion c3) (remoteVersion c3) # t4
                 @ [LogFatal err], 1)"
    by (simp add: main_def main_compare_def)
  from a have d: "stage_entries t4 = [FetchExtract]" "filter is_fatal t4 = []"
    by (auto dest: downloadAndExtract_entries downloadAndExtract_fatal)
  from a m d show "stage_entries (fst (main w q)) = pipeline"
    and "filter is_fatal (fst (main w q)) = [LogFatal err]"
    by (auto simp: pipeline_def dest!: init_ok_trace getLocalVersion_trace setRemote_ok_trace)
qed


theorem first_error_is_fatal_witness:
  "snd (main noconfig_world True) = 1
   \<and> (\<exists>msg. fst (main noconfig_world True)
         = [EvReadFile ''config.json'', LogFatal (Wrap (LibErr ''file not found'') msg)])
   \<and> snd (main nokey_world True) = 1
   \<and> stage_entries (fst (main nokey_world True)) = [ConfigLoad, InstallPath]
   \<and> snd (main headless_world True) = 1
   \<and> stage_entries (fst (main headless_world True)) = [ConfigLoad, InstallPath, LocalVersion]
   \<and> snd (main offline_world True) = 1
   \<and> prefix (stage_entries (fst (main offline_world True)))
        [ConfigLoad, InstallPath, LocalVersion, RemoteVersion]
   \<and> snd (main locked_world True) = 1
   \<and> stage_entries (fst (main locked_world True)) = pipeline"
proof -
  have a1: "ioutil_ReadFile noconfig_world ''config.json'' = Inl (LibErr ''file not found'')"
    by (simp add: noconfig_world_def)
  note s1 = first_error_is_fatal [of noconfig_world "LibErr ''file not found''" "[]" True,
      THEN conjunct1, rule_format, OF disjI1, OF a1]
  have a2: "ioutil_ReadFile nokey_world ''config.json'' = Inr ''{}''
       \<and> fst (json_Unmarshal nokey_world ''{}'' (Page conf0, Directories conf0)) = None
       \<and> (registry_OpenKey nokey_world wowKey = Some (LibErr ''key not found'')
           \<or> (registry_OpenKey nokey_world wowKey = None
               \<and> registry_GetStringValue nokey_world wowKey ''InstallPath''
                   = Inl (LibErr ''key not found'')))"
    by (simp add: nokey_world_def demo_world_def)
  note s2 = first_error_is_fatal [of nokey_world "LibErr ''key not found''" "''{}''" True,
      THEN conjunct2, THEN conjunct1, rule_format, OF a2]
  let ?i3 = "init headless_world ''config.json'' conf0"
  let ?g3 = "getLocalVersion headless_world (fst ?i3)"
  have "fst (snd ?i3) = None" by code_simp
  then have i3: "?i3 = (fst ?i3, None, snd (snd ?i3))" by (rule triple_eq)
  have "fst (snd ?g3) = Some (Errorf (''local version not found at '' @ demo_toc))"
    by code_simp
  then have g3: "?g3 = (fst ?g3, Some (Errorf (''local version not found at '' @ demo_toc)),
      snd (snd ?g3))" by (rule triple_eq)
  note s3 = first_error_is_fatal [of headless_world _ _ True "fst ?i3" "snd (snd ?i3)" "fst ?g3"
      "Errorf (''local version not found at '' @ demo_toc)" "snd (snd ?g3)",
      THEN conjunct2, THEN conjunct2, THEN conjunct1, rule_format, OF conjI, OF i3 g3]
  let ?i4 = "init offline_world ''config.json'' conf0"
  let ?g4 = "getLocalVersion offline_world (fst ?i4)"
  let ?r4 = "setRemoteVersionNDownloadURL offline_world (fst ?g4)"
  have "fst (snd ?i4) = None" by code_simp
  then have i4: "?i4 = (fst ?i4, None, snd (snd ?i4))" by (rule triple_eq)
  have "fst (snd ?g4) = None" by code_simp
  then have g4: "?g4 = (fst ?g4, None, snd (snd ?g4))" by (rule triple_eq)
  have "fst (snd ?r4) = Some (WithStack (LibErr ''timeout''))" by code_simp
  then have r4: "?r4 = (fst ?r4, Some (WithStack (LibErr ''timeout'')), snd (snd ?r4))"
    by (rule triple_eq)
  from i4 g4 r4 have a4: "?i4 = (fst ?i4, None, snd (snd ?i4))
       \<and> getLocalVersion offline_world (fst ?i4) = (fst ?g4, None, snd (snd ?g4))
       \<and> setRemoteVersionNDownloadURL offline_world (fst ?g4)
           = (fst ?r4, Some (WithStack (LibErr ''timeout'')), snd (snd ?r4))"
    by blast
  note s4 = first_error_is_fatal [of offline_world _ _ True "fst ?i4" "snd (snd ?i4)" "fst ?g4"
      "WithStack (LibErr ''timeout'')" "snd (snd ?g4)" "fst ?r4" "snd (snd ?r4)",
      THEN conjunct2, THEN conjunct2, THEN conjunct2, THEN conjunct1, rule_format, OF a4]
  let ?i5 = "init locked_world ''config.json'' conf0"
  let ?g5 = "getLocalVersion locked_world (fst ?i5)"
  let ?r5 = "setRemoteVersionNDownloadURL locked_world (fst ?g5)"
  let ?d5 = "downloadAndExtract locked_world (fst ?r5)"
  let ?e5 = "Wrap (LibErr ''access denied'')
               (''cannot remove directory '' @ demo_addon @ [sep] @ ''ElvUI'')"
  have "fst (snd ?i5) = None" by code_simp
  then have i5: "?i5 = (fst ?i5, None, snd (snd ?i5))" by (rule triple_eq)
  have "fst (snd ?g5) = None" by code_simp
  then have g5: "?g5 = (fst ?g5, None, snd (snd ?g5))" by (rule triple_eq)
  have "fst (snd ?r5) = None" by code_simp
  then have r5: "?r5 = (fst ?r5, None, snd (snd ?r5))" by (rule triple_eq)
  have gt5: "float_gt (remoteVersion (fst ?r5)) (localVersion (fst ?r5))" by code_simp
  have "fst ?d5 = Some ?e5" by code_simp
  then have d5: "?d5 = (Some ?e5, snd ?d5)" by (rule pair_eq)
  from i5 g5 r5 gt5 d5 have a5: "?i5 = (fst ?i5, None, snd (snd ?i5))
       \<and> getLocalVersion locked_world (fst ?i5) = (fst ?g5, None, snd (snd ?g5))
       \<and> setRemoteVersionNDownloadURL locked_world (fst ?g5) = (fst ?r5, None, snd (snd ?r5))
       \<and> float_gt (remoteVersion (fst ?r5)) (localVersion (fst ?r5))
       \<and> downloadAndExtract locked_world (fst ?r5) = (Some ?e5, snd ?d5)"
    by blast
  note s5 = first_error_is_fatal [of locked_world _ _ True "fst ?i5" "snd (snd ?i5)" "fst ?g5"
      ?e5 "snd (snd ?g5)" "fst ?r5" "snd (snd ?r5)" "snd ?d5",
      THEN conjunct2, THEN conjunct2, THEN conjunct2, THEN conjunct2, rule_format, OF a5]
  from s3 have b3: "snd (main headless_world True) = 1" by simp
  from s4 have b4: "snd (main offline_world True) = 1" by simp
  from s5 have b5: "snd (main locked_world True) = 1" by simp
  from s1 s2 s3 s4 s5 b3 b4 b5 show ?thesis by blast
qed

text \<open>
  C4, as the claim states it, fails: in the example the last line of the version file begins
  with the prefix, but no newline follows it; \<^verbatim>\<open>ReadString\<close> returns it
  together with \<^verbatim>\<open>io.EOF\<close>, the loop breaks without looking at it, and
  \<^verbatim>\<open>getLocalVersion\<close> returns "local version not found" although a line of
  the file begins with the prefix.
\<close>

theorem marker_in_last_line_not_found:
  "find is_marker (file_lines headless_toc) = Some ''## Version: 13.52''
   \<and> os_Open headless_world (tocFile demo_conf) = Inr (headless_toc, EOF)
   \<and> getLocalVersion headless_world demo_conf
       = (demo_conf, Some (Errorf (''local version not found at '' @ demo_toc)),
          [EvOpen demo_toc, EvClose demo_toc])"
  by code_simp

text \<open>
  C4, amended. \<^verbatim>\<open>getLocalVersion\<close> returns the floating-point value parsed
  from the first newline-terminated line of the addon's version file that begins with the
  prefix \<^verbatim>\<open>## Version: \<close>, with the line's final character (the newline)
  dropped and the surrounding white space trimmed; if no newline-terminated line of the file
  begins with that prefix, it returns the error "local version not found". What follows the
  last newline is not looked at. The file is the one at \<open>tocFile e\<close>, opened with
  success; when the parsing fails, the error of the parser is returned, wrapped.
\<close>

theorem getLocalVersion_first_marker_line:
  assumes "os_Open w (tocFile e) = Inr (buf, fin)"
  shows
    "(\<forall>line v.
        find is_marker (complete_lines buf) = Some line \<and>
        strconv_ParseFloat w
          (strings_TrimSpace w (butlast (drop (length version_prefix) line))) = (v, None)
        \<longrightarrow> getLocalVersion w e
              = (e\<lparr>localVersion := v\<rparr>, None, [EvOpen (tocFile e), EvClose (tocFile e)]))
     \<and> (\<forall>line v err.
        find is_marker (complete_lines buf) = Some line \<and>
        strconv_ParseFloat w
          (strings_TrimSpace w (butlast (drop (length version_prefix) line))) = (v, Some err)
        \<longrightarrow> fst (snd (getLocalVersion w e))
              = Some (Wrap err (''cannot parse version number ''
                   @ strings_TrimSpace w (butlast (drop (length version_prefix) line)))))
     \<and> (find is_marker (complete_lines buf) = None \<and> fin = EOF
        \<longrightarrow> getLocalVersion w e
              = (e, Some (Errorf (''local version not found at '' @ tocFile e)),
                 [EvOpen (tocFile e), EvClose (tocFile e)]))"
  using getLocalVersion_lines [OF assms]
  by (auto simp: parse_version_def Let_def)

theorem getLocalVersion_first_marker_line_witness:
  "getLocalVersion demo_world demo_conf
     = (demo_conf\<lparr>localVersion := Finite 13.52\<rparr>, None, [EvOpen demo_toc, EvClose demo_toc])
   \<and> fst (snd (getLocalVersion badversion_world demo_conf))
       = Some (Wrap (LibErr ''invalid syntax'') (''cannot parse version number '' @ ''beta''))
   \<and> getLocalVersion titleonly_world demo_conf
       = (demo_conf, Some (Errorf (''local version not found at '' @ demo_toc)),
          [EvOpen demo_toc, EvClose demo_toc])"
proof -
  have o: "os_Open demo_world (tocFile demo_conf) = Inr (demo_toc_text, EOF)"
    by (simp add: demo_tocFile demo_open)
  note s1 = getLocalVersion_first_marker_line [OF o, THEN conjunct1, rule_format,
      OF conjI, OF demo_marker demo_parse]
  have o2: "os_Open badversion_world (tocFile demo_conf)
              = Inr (''## Version: beta'' @ [newline], EOF)"
    by (simp add: badversion_world_def)
  have m2: "find is_marker (complete_lines (''## Version: beta'' @ [newline]))
              = Some (''## Version: beta'' @ [newline])"
    by code_simp
  have t2: "strings_TrimSpace badversion_world
              (butlast (drop (length version_prefix) (''## Version: beta'' @ [newline])))
            = ''beta''"
    by code_simp
  have p2: "strconv_ParseFloat badversion_world
              (strings_TrimSpace badversion_world
                 (butlast (drop (length version_prefix) (''## Version: beta'' @ [newline]))))
            = (Finite 0, Some (LibErr ''invalid syntax''))"
    by code_simp
  note s2 = getLocalVersion_first_marker_line [OF o2, THEN conjunct2, THEN conjunct1,
      rule_format, OF conjI, OF m2 p2]
  have o3: "os_Open titleonly_world (tocFile demo_conf) = Inr (''## Title: ElvUI'' @ [newline], EOF)"
    by (simp add: titleonly_world_def)
  have m3: "find is_marker (complete_lines (''## Title: ElvUI'' @ [newline])) = None"
    by code_simp
  note s3 = getLocalVersion_first_marker_line [OF o3, THEN conjunct2, THEN conjunct2,
      rule_format, OF conjI, OF m3 refl]
  from s1 s2 s3 show ?thesis unfolding demo_tocFile t2 by blast
qed

text \<open>
  C5. The stages run once each and in the fixed order configuration load, install-path
  resolution, local version, remote version, comparison, and (only when the remote version
  is greater) fetch and extract: in every run the stages entered, in the order of their
  entry, are an initial part of that list, none twice; a run that exits with status 0 has
  entered all of them, or all but the last.
\<close>

theorem stages_run_once_in_order:
  "prefix (stage_entries (fst (main w q))) pipeline
   \<and> distinct (stage_entries (fst (main w q)))
   \<and> (snd (main w q) = 0 \<longrightarrow>
        stage_entries (fst (main w q)) = pipeline
        \<or> stage_entries (fst (main w q)) = butlast pipeline)"
  by (auto simp: main_def pipeline_def
      dest!: init_cases getLocalVersion_trace setRemote_cases main_compare_result(1)
      split: prod.splits option.splits if_splits)


theorem stages_run_once_in_order_witness:
  "snd (main demo_world True) = 0
   \<and> prefix (stage_entries (fst (main demo_world True))) pipeline
   \<and> distinct (stage_entries (fst (main demo_world True)))
   \<and> (stage_entries (fst (main demo_world True)) = pipeline
        \<or> stage_entries (fst (main demo_world True)) = butlast pipeline)"
proof -
  have e: "snd (main demo_world True) = 0" by code_simp
  from stages_run_once_in_order [of demo_world True] e show ?thesis by blast
qed

text \<open>
  C6, as the claim states it, fails: a body that is a JSON object followed by other text is
  not valid JSON, yet \<^verbatim>\<open>Decode\<close> reads the object, stops there, and
  \<^verbatim>\<open>setRemoteVersionNDownloadURL\<close> returns no error.
\<close>

theorem trailing_garbage_is_accepted:
  "\<not> valid_json slop_body
   \<and> client_Do slop_world (client demo_conf) (Page demo_conf) = Inr (slop_body, EOF)
   \<and> json_Decode slop_world = Decode demo_Unmarshal
   \<and> setRemoteVersionNDownloadURL slop_world demo_conf
       = (demo_conf\<lparr>remoteVersion := Finite 13.6, downloadURL := demo_url\<rparr>, None,
          [EvDo demo_page, EvClose demo_page])"
proof -
  have a: "\<not> valid_json slop_body" by code_simp
  have b: "client_Do slop_world (client demo_conf) (Page demo_conf) = Inr (slop_body, EOF)"
    and c: "json_Decode slop_world = Decode demo_Unmarshal"
    by (simp_all add: slop_world_def)
  have d: "setRemoteVersionNDownloadURL slop_world demo_conf
       = (demo_conf\<lparr>remoteVersion := Finite 13.6, downloadURL := demo_url\<rparr>, None,
          [EvDo demo_page, EvClose demo_page])"
    by code_simp
  from a b c d show ?thesis by blast
qed

text \<open>
  C6, amended. \<^verbatim>\<open>setRemoteVersionNDownloadURL\<close> queries the configured
  endpoint once and, on success, sets the remote version to the float parsed from the field
  \<^verbatim>\<open>version\<close> of the decoded JSON response and the download URL to its field
  \<^verbatim>\<open>url\<close>. It returns an error whenever the request fails (it cannot be
  built, or it is not answered), the decoder returns an error, or the version string does
  not parse as a float. The decoder returns an error whenever the body does not begin with a
  JSON value; it decodes the first value of the body and does not look at what follows it,
  so a valid JSON body is one case of a body that begins with a value. The endpoint is
  queried at most once in every case.
\<close>

theorem setRemote_from_api_response:
  "(http_NewRequest w (Page e) = None
      \<and> client_Do w (client e) (Page e) = Inr body
      \<and> json_Decode w body = Inr r
      \<and> strconv_ParseFloat w (Version r) = (v, None)
    \<longrightarrow> setRemoteVersionNDownloadURL w e
          = (e\<lparr>remoteVersion := v, downloadURL := URL r\<rparr>, None,
             [EvDo (Page e), EvClose (Page e)]))
   \<and> ((http_NewRequest w (Page e) = Some err
        \<or> (http_NewRequest w (Page e) = None \<and> client_Do w (client e) (Page e) = Inl err)
        \<or> (http_NewRequest w (Page e) = None \<and> client_Do w (client e) (Page e) = Inr body
            \<and> json_Decode w body = Inl err))
    \<longrightarrow> fst (snd (setRemoteVersionNDownloadURL w e)) = Some (WithStack err))
   \<and> (http_NewRequest w (Page e) = None
      \<and> client_Do w (client e) (Page e) = Inr body
      \<and> json_Decode w body = Inr r
      \<and> strconv_ParseFloat w (Version r) = (v, Some err)
    \<longrightarrow> fst (snd (setRemoteVersionNDownloadURL w e))
          = Some (Wrap err (''cannot parse version number '' @ Version r)))
   \<and> length (filter is_query (snd (snd (setRemoteVersionNDownloadURL w e)))) \<le> 1
   \<and> (fst (snd (setRemoteVersionNDownloadURL w e)) = None
    \<longrightarrow> filter is_query (snd (snd (setRemoteVersionNDownloadURL w e))) = [EvDo (Page e)])
   \<and> (http_NewRequest w (Page e) = None
      \<and> client_Do w (client e) (Page e) = Inr body
      \<and> json_Decode w = Decode um
      \<and> \<not> begins_with_value body
    \<longrightarrow> (\<exists>err. fst (snd (setRemoteVersionNDownloadURL w e)) = Some (WithStack err)))
   \<and> (json_Decode w = Decode um \<and> scan_value buf = Complete val rest
    \<longrightarrow> json_Decode w (buf, fin) = um val)
   \<and> (valid_json buf \<longrightarrow> begins_with_value (buf, EOF))"
proof -
  have six: "http_NewRequest w (Page e) = None
      \<and> client_Do w (client e) (Page e) = Inr body
      \<and> json_Decode w = Decode um
      \<and> \<not> begins_with_value body
    \<longrightarrow> (\<exists>err. fst (snd (setRemoteVersionNDownloadURL w e)) = Some (WithStack err))"
  proof
    assume a: "http_NewRequest w (Page e) = None
      \<and> client_Do w (client e) (Page e) = Inr body
      \<and> json_Decode w = Decode um
      \<and> \<not> begins_with_value body"
    then obtain err where "json_Decode w body = Inl err"
      using Decode_needs_value [of body um] by auto
    with a show "\<exists>err. fst (snd (setRemoteVersionNDownloadURL w e)) = Some (WithStack err)"
      by (auto simp: setRemoteVersionNDownloadURL_def)
  qed
  have seven: "json_Decode w = Decode um \<and> scan_value buf = Complete val rest
    \<longrightarrow> json_Decode w (buf, fin) = um val"
    by (simp add: Decode_def)
  have rest: "(http_NewRequest w (Page e) = None
      \<and> client_Do w (client e) (Page e) = Inr body
      \<and> json_Decode w body = Inr r
      \<and> strconv_ParseFloat w (Version r) = (v, None)
    \<longrightarrow> setRemoteVersionNDownloadURL w e
          = (e\<lparr>remoteVersion := v, downloadURL := URL r\<rparr>, None,
             [EvDo (Page e), EvClose (Page e)]))
   \<and> ((http_NewRequest w (Page e) = Some err
        \<or> (http_NewRequest w (Page e) = None \<and> client_Do w (client e) (Page e) = Inl err)
        \<or> (http_NewRequest w (Page e) = None \<and> client_Do w (client e) (Page e) = Inr body
            \<and> json_Decode w body = Inl err))
    \<longrightarrow> fst (snd (setRemoteVersionNDownloadURL w e)) = Some (WithStack err))
   \<and> (http_NewRequest w (Page e) = None
      \<and> client_Do w (client e) (Page e) = Inr body
      \<and> json_Decode w body = Inr r
      \<and> strconv_ParseFloat w (Version r) = (v, Some err)
    \<longrightarrow> fst (snd (setRemoteVersionNDownloadURL w e))
          = Some (Wrap err (''cannot parse version number '' @ Version r)))
   \<and> length (filter is_query (snd (snd (setRemoteVersionNDownloadURL w e)))) \<le> 1
   \<and> (fst (snd (setRemoteVersionNDownloadURL w e)) = None
    \<longrightarrow> filter is_query (snd (snd (setRemoteVersionNDownloadURL w e))) = [EvDo (Page e)])"
    by (auto simp: setRemoteVersionNDownloadURL_def split: sum.splits option.splits prod.splits)
  from rest six seven valid_begins [of buf] show ?thesis by blast
qed

theorem setRemote_from_api_response_witness:
  "setRemoteVersionNDownloadURL demo_world demo_conf
     = (demo_conf\<lparr>remoteVersion := Finite 13.6, downloadURL := demo_url\<rparr>, None,
        [EvDo demo_page, EvClose demo_page])
   \<and> fst (snd (setRemoteVersionNDownloadURL offline_world demo_conf))
       = Some (WithStack (LibErr ''timeout''))
   \<and> fst (snd (setRemoteVersionNDownloadURL garbled_world demo_conf))
       = Some (Wrap (LibErr ''invalid syntax'') (''cannot parse version number '' @ ''beta''))
   \<and> fst (snd (setRemoteVersionNDownloadURL notjson_world demo_conf))
       = Some (WithStack (LibErr ''invalid character''))
   \<and> (\<exists>err. fst (snd (setRemoteVersionNDownloadURL notjson_world demo_conf))
         = Some (WithStack err))
   \<and> json_Decode slop_world (slop_body, EOF) = demo_Unmarshal demo_value"
proof -
  have a: "http_NewRequest demo_world (Page demo_conf) = None
      \<and> client_Do demo_world (client demo_conf) (Page demo_conf) = Inr (''{}'', EOF)
      \<and> json_Decode demo_world (''{}'', EOF) = Inr \<lparr>URL = demo_url, Version = ''13.60''\<rparr>
      \<and> strconv_ParseFloat demo_world (Version \<lparr>URL = demo_url, Version = ''13.60''\<rparr>)
          = (Finite 13.6, None)"
    by (simp add: demo_world_def demo_conf_def demo_ParseFloat_def)
  note s1 = setRemote_from_api_response [THEN conjunct1, rule_format, OF a]
  have b: "http_NewRequest offline_world (Page demo_conf) = None
      \<and> client_Do offline_world (client demo_conf) (Page demo_conf) = Inl (LibErr ''timeout'')"
    by (simp add: offline_world_def demo_world_def)
  note s2 = setRemote_from_api_response [THEN conjunct2, THEN conjunct1, rule_format,
      OF disjI2, OF disjI1, OF b]
  have c: "http_NewRequest garbled_world (Page demo_conf) = None
      \<and> client_Do garbled_world (client demo_conf) (Page demo_conf) = Inr (''{}'', EOF)
      \<and> json_Decode garbled_world (''{}'', EOF) = Inr \<lparr>URL = demo_url, Version = ''beta''\<rparr>
      \<and> strconv_ParseFloat garbled_world (Version \<lparr>URL = demo_url, Version = ''beta''\<rparr>)
          = (Finite 0, Some (LibErr ''invalid syntax''))"
    by (simp add: garbled_world_def demo_world_def demo_conf_def demo_ParseFloat_def)
  note s3 = setRemote_from_api_response [THEN conjunct2, THEN conjunct2, THEN conjunct1,
      rule_format, OF c]
  let ?html = "(''<html>Service Unavailable</html>'', EOF)"
  have d1: "http_NewRequest notjson_world (Page demo_conf) = None"
    and d2: "client_Do notjson_world (client demo_conf) (Page demo_conf) = Inr ?html"
    and d3: "json_Decode notjson_world = Decode demo_Unmarshal"
    by (simp_all add: notjson_world_def demo_world_def)
  have d4: "json_Decode notjson_world ?html = Inl (LibErr ''invalid character'')"
    unfolding d3 by code_simp
  have d5: "\<not> begins_with_value ?html" by code_simp
  from d1 d2 d4 have d: "http_NewRequest notjson_world (Page demo_conf) = Some (LibErr ''invalid character'')
        \<or> (http_NewRequest notjson_world (Page demo_conf) = None
            \<and> client_Do notjson_world (client demo_conf) (Page demo_conf)
                = Inl (LibErr ''invalid character''))
        \<or> (http_NewRequest notjson_world (Page demo_conf) = None
            \<and> client_Do notjson_world (client demo_conf) (Page demo_conf) = Inr ?html
            \<and> json_Decode notjson_world ?html = Inl (LibErr ''invalid character''))"
    by blast
  note s4 = setRemote_from_api_response [THEN conjunct2, THEN conjunct1, rule_format, OF d]
  from d1 d2 d3 d5 have e: "http_NewRequest notjson_world (Page demo_conf) = None
      \<and> client_Do notjson_world (client demo_conf) (Page demo_conf) = Inr ?html
      \<and> json_Decode notjson_world = Decode demo_Unmarshal
      \<and> \<not> begins_with_value ?html"
    by blast
  note s5 = setRemote_from_api_response [THEN conjunct2, THEN conjunct2, THEN conjunct2,
      THEN conjunct2, THEN conjunct2, THEN conjunct1, rule_format, OF e]
  have f1: "json_Decode slop_world = Decode demo_Unmarshal"
    by (simp add: slop_world_def)
  have f2: "scan_value slop_body = Complete demo_value ''</html>''" by code_simp
  from f1 f2 have f: "json_Decode slop_world = Decode demo_Unmarshal
      \<and> scan_value slop_body = Complete demo_value ''</html>''" by blast
  note s6 = setRemote_from_api_response [THEN conjunct2, THEN conjunct2, THEN conjunct2,
      THEN conjunct2, THEN conjunct2, THEN conjunct2, THEN conjunct1, rule_format, OF f]
  from s1 s2 s3 s4 s5 s6 show ?thesis by (simp add: demo_conf_def)
qed

text \<open>
  C7. \<^verbatim>\<open>init\<close>, once the configuration is read and decoded, resolves the install
  path by one registry lookup: it opens the key
  \<^verbatim>\<open>SOFTWARE\Wow6432Node\Blizzard Entertainment\World of Warcraft\<close> (the constant
  \<open>wowKey\<close>) under \<^verbatim>\<open>HKEY_LOCAL_MACHINE\<close>, reads its string value
  \<^verbatim>\<open>InstallPath\<close> and joins the result with \<^verbatim>\<open>Interface\<close> and
  \<^verbatim>\<open>AddOns\<close>. If the key or the value is missing, it fails with "cannot find WoW
  install directory" and the install path stays as it was. A value is read at most once, and
  exactly once when \<^verbatim>\<open>init\<close> succeeds.
\<close>

theorem init_resolves_install_path:
  assumes "ioutil_ReadFile w configPath = Inr raw"
    and "json_Unmarshal w raw (Page e, Directories e) = (None, (pg, dirs))"
  shows
    "(registry_OpenKey w wowKey = None
        \<and> registry_GetStringValue w wowKey ''InstallPath'' = Inr s
      \<longrightarrow> init w configPath e
            = (e\<lparr>Page := pg, Directories := dirs,
                 addon := filepath_Join [s, ''Interface'', ''AddOns'']\<rparr>, None,
               [EvReadFile configPath, EvOpenKey wowKey,
                EvGetStringValue wowKey ''InstallPath'', EvClose wowKey]))
     \<and> ((registry_OpenKey w wowKey = Some err
          \<or> (registry_OpenKey w wowKey = None
              \<and> registry_GetStringValue w wowKey ''InstallPath'' = Inl err))
      \<longrightarrow> fst (snd (init w configPath e))
            = Some (Wrap err ''cannot find WoW install directory'')
          \<and> addon (fst (init w configPath e)) = addon e)
     \<and> length (filter is_lookup (snd (snd (init w configPath e)))) \<le> 1
     \<and> (fst (snd (init w configPath e)) = None
      \<longrightarrow> filter is_lookup (snd (snd (init w configPath e)))
            = [EvGetStringValue wowKey ''InstallPath''])"
  using assms
  by (auto simp: init_def Let_def split: sum.splits option.splits)

theorem init_resolves_install_path_witness:
  "init demo_world ''config.json'' conf0
     = (conf0\<lparr>Page := demo_page, Directories := demo_dirs, addon := demo_addon\<rparr>, None,
        [EvReadFile ''config.json'', EvOpenKey wowKey,
         EvGetStringValue wowKey ''InstallPath'', EvClose wowKey])
   \<and> fst (snd (init nokey_world ''config.json'' conf0))
       = Some (Wrap (LibErr ''key not found'') ''cannot find WoW install directory'')
   \<and> addon (fst (init nokey_world ''config.json'' conf0)) = addon conf0"
proof -
  have a: "ioutil_ReadFile demo_world ''config.json'' = Inr ''{}''"
    and b: "json_Unmarshal demo_world ''{}'' (Page conf0, Directories conf0)
              = (None, (demo_page, demo_dirs))"
    and c: "registry_OpenKey demo_world wowKey = None
        \<and> registry_GetStringValue demo_world wowKey ''InstallPath'' = Inr demo_install"
    by (simp_all add: demo_world_def)
  note s1 = init_resolves_install_path [OF a b, THEN conjunct1, rule_format, OF c]
  have a': "ioutil_ReadFile nokey_world ''config.json'' = Inr ''{}''"
    and b': "json_Unmarshal nokey_world ''{}'' (Page conf0, Directories conf0)
              = (None, (demo_page, demo_dirs))"
    and c': "registry_OpenKey nokey_world wowKey = Some (LibErr ''key not found'')"
    by (simp_all add: nokey_world_def demo_world_def)
  note s2 = init_resolves_install_path [OF a' b', THEN conjunct2, THEN conjunct1, rule_format,
      OF disjI1, OF c']
  from s1 s2 show ?thesis by (simp add: demo_addon_join)
qed



text \<open>
  C9. If the download request fails, or the reading of the response body, or the opening of
  the bytes as a zip archive, then \<^verbatim>\<open>downloadAndExtract\<close> returns that error,
  wrapped, and has made no call that removes or writes anything; a removal or a write
  happens only after \<^verbatim>\<open>zip.NewReader\<close> has succeeded.
\<close>

theorem failed_download_changes_nothing:
  "((http_Get w (downloadURL e) = Inl err
       \<or> (http_Get w (downloadURL e) = Inr resp \<and> snd (ReadAll (Body resp)) = Some err)
       \<or> (http_Get w (downloadURL e) = Inr resp \<and> snd (ReadAll (Body resp)) = None
           \<and> zip_NewReader w (fst (ReadAll (Body resp))) (ContentLength resp) = Inl err))
      \<longrightarrow> (\<exists>msg. fst (downloadAndExtract w e) = Some (Wrap err msg))
          \<and> \<not> list_ex is_mutation (snd (downloadAndExtract w e)))
   \<and> (list_ex is_mutation (snd (downloadAndExtract w e))
      \<longrightarrow> (\<exists>resp files.
             http_Get w (downloadURL e) = Inr resp
             \<and> snd (ReadAll (Body resp)) = None
             \<and> zip_NewReader w (fst (ReadAll (Body resp))) (ContentLength resp) = Inr files))"
  by (auto simp: downloadAndExtract_def is_mutation_def
      split: sum.splits option.splits prod.splits)

theorem failed_download_changes_nothing_witness:
  "(\<exists>msg. fst (downloadAndExtract nodownload_world demo_conf)
       = Some (Wrap (LibErr ''no such host'') msg))
   \<and> \<not> list_ex is_mutation (snd (downloadAndExtract nodownload_world demo_conf))
   \<and> list_ex is_mutation (snd (downloadAndExtract demo_world demo_conf))
   \<and> (\<exists>resp files.
         http_Get demo_world (downloadURL demo_conf) = Inr resp
         \<and> snd (ReadAll (Body resp)) = None
         \<and> zip_NewReader demo_world (fst (ReadAll (Body resp))) (ContentLength resp)
             = Inr files)"
proof -
  have a: "http_Get nodownload_world (downloadURL demo_conf) = Inl (LibErr ''no such host'')"
    by (simp add: nodownload_world_def)
  note s1 = failed_download_changes_nothing [of nodownload_world demo_conf
      "LibErr ''no such host''", THEN conjunct1, rule_format, OF disjI1, OF a]
  have m: "list_ex is_mutation (snd (downloadAndExtract demo_world demo_conf))"
    by code_simp
  note s2 = failed_download_changes_nothing [of demo_world demo_conf,
      THEN conjunct2, rule_format, OF m]
  from s1 s2 m show ?thesis by blast
qed

text \<open>
  C10. A marker line that is the last line of the version file and is not terminated by a
  newline is never examined: \<^verbatim>\<open>ReadString\<close> reports
  \<^verbatim>\<open>io.EOF\<close> for it and the loop breaks, so
  \<^verbatim>\<open>getLocalVersion\<close> returns the error "local version not found" even
  though a marker line is present. Here the file is \<open>body @ frag\<close>, the text \<open>frag\<close>
  after the last newline begins with the prefix, and the loop reaches it: no line of
  \<open>body\<close> is a marker line. That the last piece is never examined shows in the second
  part: the loop gives the same result whatever stands after the last newline.
\<close>

theorem getLocalVersion_unterminated_marker:
  assumes "os_Open w (tocFile e) = Inr (body @ frag, EOF)"
    and "newline \<notin> set frag"
    and "is_marker frag"
    and "body = [] \<or> last body = newline"
    and "find is_marker (complete_lines body) = None"
  shows "getLocalVersion w e
           = (e, Some (Errorf (''local version not found at '' @ tocFile e)),
              [EvOpen (tocFile e), EvClose (tocFile e)])
         \<and> (\<forall>other fin. newline \<notin> set other \<longrightarrow>
               getLocalVersion_loop w e (body @ other, fin)
                 = getLocalVersion_loop w e (body @ frag, fin))"
  using getLocalVersion_lines [OF assms(1)] assms(2,5)
  by (simp add: complete_lines_fragment loop_lines)

theorem getLocalVersion_unterminated_marker_witness:
  "getLocalVersion headless_world demo_conf
     = (demo_conf, Some (Errorf (''local version not found at '' @ demo_toc)),
        [EvOpen demo_toc, EvClose demo_toc])"
proof -
  have o: "os_Open headless_world (tocFile demo_conf)
             = Inr ((''## Title: ElvUI'' @ [newline]) @ ''## Version: 13.52'', EOF)"
    by (simp add: headless_world_def headless_toc_def)
  have n: "newline \<notin> set ''## Version: 13.52''" by (simp add: newline_def)
  have m: "is_marker ''## Version: 13.52''" by code_simp
  have l: "''## Title: ElvUI'' @ [newline] = [] \<or> last (''## Title: ElvUI'' @ [newline]) = newline"
    by simp
  have f: "find is_marker (complete_lines (''## Title: ElvUI'' @ [newline])) = None"
    by code_simp
  from getLocalVersion_unterminated_marker [OF o n m l f]
  show ?thesis unfolding demo_tocFile by blast
qed

end
